theory Spec2Isabelle
  imports Complex_Main
begin

section \<open>Values exchanged over the real-time channel\<close>

text \<open>
  A JavaScript number as \<open>JSON.parse\<close> can produce it: a finite value or one of the two
  infinities (never NaN). \<open>Set\<close> and \<open>Map\<close> compare keys with SameValueZero, which on these
  values is plain equality.
\<close>

datatype number = Num rat | Infinity | NegInfinity

fun isInteger :: "number \<Rightarrow> bool" where
  "isInteger (Num r) = (of_int \<lfloor>r\<rfloor> = r)"
| "isInteger Infinity = False"
| "isInteger NegInfinity = False"

text \<open>
  JavaScript values that are parsed from, or serialised to, JSON text. An object is its
  list of own properties; \<open>JUndefined\<close> is the value of a missing property.
\<close>

datatype json =
    JUndefined
  | JNull
  | JBool bool
  | JNum number
  | JStr string
  | JDate nat
  | JArr "json list"
  | JObj "(string \<times> json) list"

datatype exn =
    SyntaxError
  | TypeError
  | Error string
  | ApiError "nat option" "nat option"

text \<open>The text of an incoming frame, seen through \<open>JSON.parse\<close>.\<close>

datatype frame = Unparseable | Text json

fun JSON_parse :: "frame \<Rightarrow> exn + json" where
  "JSON_parse Unparseable = Inl SyntaxError"
| "JSON_parse (Text data) = Inr data"

text \<open>
  Property access \<open>data.k\<close> for the keys the handlers read (\<open>type\<close>, \<open>tableId\<close>): reading
  a property of \<open>null\<close> or \<open>undefined\<close> throws, a primitive or an array has no such
  property, an object yields the property's value or \<open>undefined\<close>.
\<close>

fun get_prop :: "json \<Rightarrow> string \<Rightarrow> exn + json" where
  "get_prop JUndefined k = Inl TypeError"
| "get_prop JNull k = Inl TypeError"
| "get_prop (JObj kvs) k = Inr (case map_of kvs k of None \<Rightarrow> JUndefined | Some v \<Rightarrow> v)"
| "get_prop v k = Inr JUndefined"

fun typeof_number :: "json \<Rightarrow> bool" where
  "typeof_number (JNum n) = True"
| "typeof_number v = False"

fun the_number :: "json \<Rightarrow> number" where
  "the_number (JNum n) = n"
| "the_number v = Num 0"

text \<open>
  Object literals with a spread: \<open>{k1: v1, ..., ...data}\<close> assigns the properties of
  \<open>data\<close> in order; assigning an existing key replaces its value in place.
\<close>

fun obj_set :: "string \<Rightarrow> json \<Rightarrow> (string \<times> json) list \<Rightarrow> (string \<times> json) list" where
  "obj_set k v [] = [(k, v)]"
| "obj_set k v ((k', v') # kvs) =
     (if k' = k then (k, v) # kvs else (k', v') # obj_set k v kvs)"

definition spread :: "(string \<times> json) list \<Rightarrow> (string \<times> json) list \<Rightarrow> (string \<times> json) list" where
  "spread obj data = fold (\<lambda>(k, v). obj_set k v) data obj"

section \<open>Connections, the table subscriptions and the handlers\<close>

text \<open>
  A JavaScript \<open>Set\<close> is a list without repetitions in insertion order: \<open>add\<close> appends
  an absent element, \<open>delete\<close> removes the element, \<open>size\<close> is the length.
\<close>

definition set_add :: "'a \<Rightarrow> 'a list \<Rightarrow> 'a list" where
  "set_add x xs = (if x \<in> set xs then xs else xs @ [x])"

definition set_delete :: "'a \<Rightarrow> 'a list \<Rightarrow> 'a list" where
  "set_delete x xs = removeAll x xs"

datatype readyState = CONNECTING | OPEN | CLOSING | CLOSED

text \<open>
  \<open>ExtendedWebSocket\<close>: the two fields the server adds, the socket's ready state, and a
  log of what the server called on it (\<open>send\<close> with the value given to
  \<open>JSON.stringify\<close>, and the number of \<open>ping\<close> calls).
\<close>

record ExtendedWebSocket =
  isAlive :: bool
  subscribedTables :: "number list"
  readyState :: readyState
  sent :: "json list"
  pings :: nat

type_synonym conn = nat

text \<open>
  The server: \<open>wss.clients\<close>, the socket objects by identity, and the
  \<open>tableSubscriptions\<close> map from table id to its set of subscribers.
\<close>

record server =
  clients :: "conn list"
  sockets :: "conn \<Rightarrow> ExtendedWebSocket"
  tableSubscriptions :: "number \<rightharpoonup> conn list"

definition new_socket :: ExtendedWebSocket where
  "new_socket = \<lparr>isAlive = True, subscribedTables = [], readyState = OPEN, sent = [], pings = 0\<rparr>"

definition init :: server where
  "init = \<lparr>clients = [], sockets = (\<lambda>c. new_socket), tableSubscriptions = Map.empty\<rparr>"

definition upd_socket :: "conn \<Rightarrow> (ExtendedWebSocket \<Rightarrow> ExtendedWebSocket) \<Rightarrow> server \<Rightarrow> server" where
  "upd_socket c f s = s\<lparr>sockets := (sockets s)(c := f (sockets s c))\<rparr>"

definition send :: "conn \<Rightarrow> json \<Rightarrow> server \<Rightarrow> server" where
  "send c m s = upd_socket c (\<lambda>w. w\<lparr>sent := sent w @ [m]\<rparr>) s"

definition subscribers :: "server \<Rightarrow> number \<Rightarrow> conn list" where
  "subscribers s tableId = (case tableSubscriptions s tableId of None \<Rightarrow> [] | Some subs \<Rightarrow> subs)"

text \<open>\<open>wss.on('connection')\<close>: the server tracks the socket and the handler initialises it.\<close>

definition on_connection :: "conn \<Rightarrow> server \<Rightarrow> server" where
  "on_connection c s =
     (s\<lparr>clients := set_add c (clients s)\<rparr>)\<lparr>sockets := (sockets s)(c := new_socket)\<rparr>"

text \<open>\<open>extWs.on('pong')\<close>.\<close>

definition on_pong :: "conn \<Rightarrow> server \<Rightarrow> server" where
  "on_pong c s = upd_socket c (\<lambda>w. w\<lparr>isAlive := True\<rparr>) s"

text \<open>The subscribe branch of the message handler.\<close>

definition subscribed_msg :: "number \<Rightarrow> json" where
  "subscribed_msg tableId =
     JObj [(''type'', JStr ''subscribed''), (''tableId'', JNum tableId),
           (''message'', JStr ''Successfully subscribed to real-time updates'')]"

definition subscribe :: "conn \<Rightarrow> number \<Rightarrow> server \<Rightarrow> server" where
  "subscribe c tableId s =
     (let s1 = upd_socket c (\<lambda>w. w\<lparr>subscribedTables := set_add tableId (subscribedTables w)\<rparr>) s;
          s2 = (if tableSubscriptions s1 tableId = None
                then s1\<lparr>tableSubscriptions := (tableSubscriptions s1)(tableId \<mapsto> [])\<rparr>
                else s1);
          s3 = (case tableSubscriptions s2 tableId of
                  None \<Rightarrow> s2
                | Some subs \<Rightarrow> s2\<lparr>tableSubscriptions := (tableSubscriptions s2)(tableId \<mapsto> set_add c subs)\<rparr>)
      in send c (subscribed_msg tableId) s3)"

text \<open>
  The two statements shared by the unsubscribe branch and the close handler:
  \<open>tableSubscriptions.get(tableId)?.delete(extWs)\<close>, then the entry is deleted when its
  size is 0.
\<close>

definition drop_subscriber :: "conn \<Rightarrow> number \<Rightarrow> server \<Rightarrow> server" where
  "drop_subscriber c tableId s =
     (let s1 = (case tableSubscriptions s tableId of
                  None \<Rightarrow> s
                | Some subs \<Rightarrow> s\<lparr>tableSubscriptions := (tableSubscriptions s)(tableId \<mapsto> set_delete c subs)\<rparr>)
      in (case tableSubscriptions s1 tableId of
            None \<Rightarrow> s1
          | Some subs \<Rightarrow> if length subs = 0
                         then s1\<lparr>tableSubscriptions := (tableSubscriptions s1)(tableId := None)\<rparr>
                         else s1))"

definition unsubscribed_msg :: "number \<Rightarrow> json" where
  "unsubscribed_msg tableId = JObj [(''type'', JStr ''unsubscribed''), (''tableId'', JNum tableId)]"

definition unsubscribe :: "conn \<Rightarrow> number \<Rightarrow> server \<Rightarrow> server" where
  "unsubscribe c tableId s =
     (let s1 = upd_socket c (\<lambda>w. w\<lparr>subscribedTables := set_delete tableId (subscribedTables w)\<rparr>) s;
          s2 = drop_subscriber c tableId s1
      in send c (unsubscribed_msg tableId) s2)"

text \<open>
  The body of the \<open>try\<close> block of \<open>extWs.on('message')\<close>, and the handler with its
  \<open>catch\<close>, which logs the error and leaves.
\<close>

definition is_request :: "json \<Rightarrow> string \<Rightarrow> exn + bool" where
  "is_request data name =
     (case get_prop data ''type'' of
        Inl e \<Rightarrow> Inl e
      | Inr ty \<Rightarrow>
          if ty = JStr name
          then (case get_prop data ''tableId'' of
                  Inl e \<Rightarrow> Inl e
                | Inr tableId \<Rightarrow> Inr (typeof_number tableId))
          else Inr False)"

definition tableId_of :: "json \<Rightarrow> number" where
  "tableId_of data = (case get_prop data ''tableId'' of Inr v \<Rightarrow> the_number v | Inl e \<Rightarrow> Num 0)"

definition message_body :: "conn \<Rightarrow> frame \<Rightarrow> server \<Rightarrow> exn + server" where
  "message_body c message s =
     (case JSON_parse message of
        Inl e \<Rightarrow> Inl e
      | Inr data \<Rightarrow>
          (case is_request data ''subscribe'' of
             Inl e \<Rightarrow> Inl e
           | Inr True \<Rightarrow> Inr (subscribe c (tableId_of data) s)
           | Inr False \<Rightarrow>
               (case is_request data ''unsubscribe'' of
                  Inl e \<Rightarrow> Inl e
                | Inr True \<Rightarrow> Inr (unsubscribe c (tableId_of data) s)
                | Inr False \<Rightarrow> Inr s)))"

definition on_message :: "conn \<Rightarrow> frame \<Rightarrow> server \<Rightarrow> exn + server" where
  "on_message c message s =
     (case message_body c message s of
        Inl error \<Rightarrow> Inr s
      | Inr s' \<Rightarrow> Inr s')"

text \<open>
  \<open>extWs.on('close')\<close>: the handler walks \<open>Array.from(extWs.subscribedTables)\<close>; the
  socket is then closed and the server stops tracking it.
\<close>

definition close_cleanup :: "conn \<Rightarrow> server \<Rightarrow> server" where
  "close_cleanup c s = fold (drop_subscriber c) (subscribedTables (sockets s c)) s"

definition on_close :: "conn \<Rightarrow> server \<Rightarrow> server" where
  "on_close c s =
     (let s1 = close_cleanup c s;
          s2 = upd_socket c (\<lambda>w. w\<lparr>readyState := CLOSED\<rparr>) s1
      in s2\<lparr>clients := set_delete c (clients s2)\<rparr>)"

text \<open>
  The heartbeat: one pass of the \<open>pingInterval\<close> callback over \<open>wss.clients\<close>.
  \<open>terminate\<close> destroys the socket; its \<open>close\<close> event comes as a later event.
\<close>

definition terminate :: "conn \<Rightarrow> server \<Rightarrow> server" where
  "terminate c s = upd_socket c (\<lambda>w. w\<lparr>readyState := CLOSING\<rparr>) s"

definition ping :: "conn \<Rightarrow> server \<Rightarrow> server" where
  "ping c s = upd_socket c (\<lambda>w. w\<lparr>pings := pings w + 1\<rparr>) s"

definition sweep_client :: "conn \<Rightarrow> server \<Rightarrow> server" where
  "sweep_client c s =
     (if isAlive (sockets s c) = False then terminate c s
      else ping c (upd_socket c (\<lambda>w. w\<lparr>isAlive := False\<rparr>) s))"

definition sweep :: "server \<Rightarrow> server" where
  "sweep s = fold sweep_client (clients s) s"

text \<open>\<open>broadcastTableUpdate\<close>.\<close>

definition envelope :: "number \<Rightarrow> (string \<times> json) list \<Rightarrow> json" where
  "envelope tableId data =
     JObj (spread [(''type'', JStr ''tableUpdate''), (''tableId'', JNum tableId)] data)"

definition deliver :: "json \<Rightarrow> conn \<Rightarrow> server \<Rightarrow> server" where
  "deliver message client s =
     (if readyState (sockets s client) = OPEN then send client message s else s)"

definition broadcastTableUpdate :: "number \<Rightarrow> (string \<times> json) list \<Rightarrow> server \<Rightarrow> server" where
  "broadcastTableUpdate tableId data s =
     (case tableSubscriptions s tableId of
        None \<Rightarrow> s
      | Some subs \<Rightarrow>
          if length subs = 0 then s
          else fold (deliver (envelope tableId data)) subs s)"

text \<open>
  The real-time part of \<open>DELETE /api/tables/:id\<close>, run once the table is deleted:
  the \<open>tableDeleted\<close> broadcast, then \<open>tableSubscriptions.delete(tableId)\<close>.
\<close>

definition table_deleted :: "number \<Rightarrow> server \<Rightarrow> server" where
  "table_deleted tableId s =
     (let s1 = broadcastTableUpdate tableId
                 [(''type'', JStr ''tableDeleted''), (''message'', JStr ''Table was deleted'')] s
      in s1\<lparr>tableSubscriptions := (tableSubscriptions s1)(tableId := None)\<rparr>)"

section \<open>Events of the single-threaded event loop\<close>

datatype event =
    Connection conn
  | Pong conn
  | Message conn frame
  | Close conn
  | Sweep
  | Broadcast number "(string \<times> json) list"
  | TableDeleted number

text \<open>
  One turn of the event loop. A socket's events only fire while the server tracks it, and
  a connection event brings a socket that is not tracked yet.
\<close>

fun step :: "event \<Rightarrow> server \<Rightarrow> server" where
  "step (Connection c) s = (if c \<in> set (clients s) then s else on_connection c s)"
| "step (Pong c) s = (if c \<in> set (clients s) then on_pong c s else s)"
| "step (Message c m) s =
     (if c \<in> set (clients s)
      then (case on_message c m s of Inl e \<Rightarrow> s | Inr s' \<Rightarrow> s')
      else s)"
| "step (Close c) s = (if c \<in> set (clients s) then on_close c s else s)"
| "step Sweep s = sweep s"
| "step (Broadcast tableId data) s = broadcastTableUpdate tableId data s"
| "step (TableDeleted tableId) s = table_deleted tableId s"

definition run :: "event list \<Rightarrow> server \<Rightarrow> server" where
  "run evs s = fold step evs s"

section \<open>The Google Sheets snapshot\<close>

record SheetData =
  headers :: "string list"
  rows :: "string list list"

text \<open>
  A cell of \<open>response.data.values\<close>: \<open>null\<close>, \<open>undefined\<close>, or a value given by the
  text its \<open>toString()\<close> returns. An entry of \<open>values\<close> is an array of cells, or some
  other value, of which only its truthiness matters.
\<close>

datatype cell = CNull | CUndefined | CVal string

datatype row = Arr "cell list" | NotArr bool

text \<open>The match of \<open>/[-\w]{25,}/\<close>: the leftmost run of at least 25 characters of the class.\<close>

definition word_char :: "char \<Rightarrow> bool" where
  "word_char c =
     (let n = (of_char c :: nat)
      in (48 \<le> n \<and> n \<le> 57) \<or> (65 \<le> n \<and> n \<le> 90) \<or> (97 \<le> n \<and> n \<le> 122)
         \<or> c = CHR ''_'' \<or> c = CHR ''-'')"

fun sheet_id_match :: "string \<Rightarrow> string option" where
  "sheet_id_match [] = None"
| "sheet_id_match (c # cs) =
     (let run = takeWhile word_char (c # cs)
      in if 25 \<le> length run then Some run else sheet_id_match cs)"

text \<open>Decimal text of a natural number, for the template \<open>`Column ${i + 1}`\<close>.\<close>

definition digit_char :: "nat \<Rightarrow> char" where
  "digit_char d = char_of (48 + d)"

function string_of_nat :: "nat \<Rightarrow> string" where
  "string_of_nat n =
     (if n < 10 then [digit_char n] else string_of_nat (n div 10) @ [digit_char (n mod 10)])"
  by pat_completeness auto
termination
  by (relation "measure (\<lambda>n. n)") auto

definition header_cell :: "cell \<Rightarrow> string" where
  "header_cell h = (case h of CNull \<Rightarrow> [] | CUndefined \<Rightarrow> [] | CVal t \<Rightarrow> if t = [] then [] else t)"

definition header_row :: "row \<Rightarrow> exn + string list" where
  "header_row r =
     (case r of
        Arr cells \<Rightarrow> Inr (map header_cell cells)
      | NotArr True \<Rightarrow> Inl TypeError
      | NotArr False \<Rightarrow> Inr [])"

definition maxColumns :: "row list \<Rightarrow> nat" where
  "maxColumns values =
     fold (\<lambda>r m. case r of Arr cells \<Rightarrow> max m (length cells) | NotArr b \<Rightarrow> m) values 0"

definition generic_headers :: "nat \<Rightarrow> string list" where
  "generic_headers n = map (\<lambda>i. ''Column '' @ string_of_nat (i + 1)) [0..<n]"

definition cell_text :: "cell \<Rightarrow> string" where
  "cell_text cell = (case cell of CNull \<Rightarrow> [] | CUndefined \<Rightarrow> [] | CVal t \<Rightarrow> t)"

definition data_row :: "nat \<Rightarrow> row \<Rightarrow> string list" where
  "data_row n r =
     (case r of
        NotArr b \<Rightarrow> replicate n []
      | Arr cells \<Rightarrow>
          map (\<lambda>i. cell_text (if i < length cells then cells ! i else CUndefined))
              [0..<max n (length cells)])"

definition process_values :: "row list \<Rightarrow> exn + SheetData" where
  "process_values values =
     (if length values = 0 then Inr \<lparr>headers = [], rows = []\<rparr>
      else
        (case header_row (hd values) of
           Inl e \<Rightarrow> Inl e
         | Inr headers0 \<Rightarrow>
             (let headers1 = (if length headers0 = 0 \<and> 0 < length values
                              then headers0 @ generic_headers (maxColumns values)
                              else headers0);
                  rows0 = map (data_row (length headers1)) (tl values);
                  rows1 = (if length rows0 = 0 \<and> 0 < length headers1
                           then rows0 @ [replicate (length headers1) []]
                           else rows0)
              in Inr \<lparr>headers = headers1, rows = rows1\<rparr>)))"

text \<open>
  The inner \<open>catch (googleError)\<close>: an error of the API client carries an optional
  \<open>code\<close> and an optional \<open>response.status\<close>.
\<close>

definition has_status :: "exn \<Rightarrow> nat \<Rightarrow> bool" where
  "has_status e n =
     (case e of ApiError code status \<Rightarrow> code = Some n \<or> status = Some n | _ \<Rightarrow> False)"

definition not_found_snapshot :: SheetData where
  "not_found_snapshot =
     \<lparr>headers = [''Data not found''],
      rows = [[''Please check your Google Sheet URL and permissions'']]\<rparr>"

definition access_denied_snapshot :: SheetData where
  "access_denied_snapshot =
     \<lparr>headers = [''Access denied''],
      rows = [[''Google Sheet requires public access or sharing with service account'']]\<rparr>"

definition error_snapshot :: SheetData where
  "error_snapshot =
     \<lparr>headers = [''Error''],
      rows = [[''Failed to load data. Please check the Google Sheet URL and try again.'']]\<rparr>"

definition google_catch :: "exn \<Rightarrow> exn + SheetData" where
  "google_catch googleError =
     (if has_status googleError 404 then Inr not_found_snapshot
      else if has_status googleError 403 then Inr access_denied_snapshot
      else Inl googleError)"

text \<open>
  The environment of a fetch: the API key variable and the outcome of
  \<open>sheets.spreadsheets.values.get\<close> for a spreadsheet id and key (a thrown error, or
  \<open>response.data.values\<close>, which may be missing).
\<close>

record google_env =
  GOOGLE_SHEETS_API_KEY :: "string option"
  values_get :: "string \<Rightarrow> string \<Rightarrow> exn + row list option"

text \<open>\<open>process.env.GOOGLE_SHEETS_API_KEY || ""\<close>.\<close>

definition apiKey_of :: "google_env \<Rightarrow> string" where
  "apiKey_of env = (case GOOGLE_SHEETS_API_KEY env of None \<Rightarrow> [] | Some k \<Rightarrow> k)"

definition fetch_body :: "google_env \<Rightarrow> string \<Rightarrow> exn + SheetData" where
  "fetch_body env sheetUrl =
     (case sheet_id_match sheetUrl of
        None \<Rightarrow> Inl (Error ''Invalid Google Sheet URL'')
      | Some spreadsheetId \<Rightarrow>
          (let apiKey = apiKey_of env
           in if apiKey = [] then Inl (Error ''Google Sheets API key is missing'')
              else
                (case (case values_get env spreadsheetId apiKey of
                         Inl e \<Rightarrow> Inl e
                       | Inr v \<Rightarrow> process_values (case v of None \<Rightarrow> [] | Some vs \<Rightarrow> vs)) of
                   Inl googleError \<Rightarrow> google_catch googleError
                 | Inr snapshot \<Rightarrow> Inr snapshot)))"

definition fetchGoogleSheetData :: "google_env \<Rightarrow> string \<Rightarrow> exn + SheetData" where
  "fetchGoogleSheetData env sheetUrl =
     (case fetch_body env sheetUrl of
        Inl error \<Rightarrow> Inr error_snapshot
      | Inr snapshot \<Rightarrow> Inr snapshot)"

section \<open>Storage\<close>

text \<open>
  The rows of the schema's \<open>tables\<close>, \<open>customColumns\<close> and \<open>columnValues\<close>; every field
  carries the name of its table as a prefix. \<open>new Date()\<close> is a parameter \<open>now\<close>, and a
  \<open>serial\<close> column draws from the table's counter.
\<close>

record Table =
  tables_id :: int
  tables_userId :: int
  tables_name :: string
  tables_googleSheetUrl :: string
  tables_columns :: json
  tables_createdAt :: nat
  tables_lastUpdatedAt :: nat

record CustomColumn =
  customColumns_id :: int
  customColumns_tableId :: int
  customColumns_name :: string
  customColumns_type :: string
  customColumns_createdAt :: nat

record ColumnValue =
  columnValues_id :: int
  columnValues_columnId :: int
  columnValues_rowIndex :: int
  columnValues_value :: string
  columnValues_createdAt :: nat
  columnValues_updatedAt :: nat

record InsertColumnValue =
  columnId :: number
  rowIndex :: number
  "value" :: string

record db =
  tables :: "Table list"
  customColumns :: "CustomColumn list"
  columnValues :: "ColumnValue list"
  columnValues_id_seq :: int

text \<open>\<open>result[0]\<close> of a query result.\<close>

definition first_row :: "'a list \<Rightarrow> 'a option" where
  "first_row result = (case result of [] \<Rightarrow> None | r # rest \<Rightarrow> Some r)"

definition getUserTable :: "int \<Rightarrow> int \<Rightarrow> db \<Rightarrow> Table option" where
  "getUserTable ident userId d =
     first_row (take 1 (filter (\<lambda>t. tables_id t = ident \<and> tables_userId t = userId) (tables d)))"

definition updateTable :: "int \<Rightarrow> (Table \<Rightarrow> Table) \<Rightarrow> nat \<Rightarrow> db \<Rightarrow> Table option \<times> db" where
  "updateTable ident tableData now d =
     (let lastUpdatedAt = now;
          set_row = (\<lambda>t. (tableData t)\<lparr>tables_lastUpdatedAt := lastUpdatedAt\<rparr>);
          result = map set_row (filter (\<lambda>t. tables_id t = ident) (tables d))
      in (first_row result,
          d\<lparr>tables := map (\<lambda>t. if tables_id t = ident then set_row t else t) (tables d)\<rparr>))"

definition getCustomColumns :: "int \<Rightarrow> db \<Rightarrow> CustomColumn list" where
  "getCustomColumns tableId d = filter (\<lambda>c. customColumns_tableId c = tableId) (customColumns d)"






section \<open>The resync routes\<close>

definition sheet_json :: "SheetData \<Rightarrow> json" where
  "sheet_json sd =
     JObj [(''headers'', JArr (map JStr (headers sd))),
           (''rows'', JArr (map (\<lambda>r. JArr (map JStr r)) (rows sd)))]"

definition table_json :: "Table \<Rightarrow> json" where
  "table_json t =
     JObj [(''id'', JNum (Num (of_int (tables_id t)))),
           (''userId'', JNum (Num (of_int (tables_userId t)))),
           (''name'', JStr (tables_name t)),
           (''googleSheetUrl'', JStr (tables_googleSheetUrl t)),
           (''columns'', tables_columns t),
           (''createdAt'', JDate (tables_createdAt t)),
           (''lastUpdatedAt'', JDate (tables_lastUpdatedAt t))]"

definition column_json :: "CustomColumn \<Rightarrow> json" where
  "column_json c =
     JObj [(''id'', JNum (Num (of_int (customColumns_id c)))),
           (''tableId'', JNum (Num (of_int (customColumns_tableId c)))),
           (''name'', JStr (customColumns_name c)),
           (''type'', JStr (customColumns_type c)),
           (''createdAt'', JDate (customColumns_createdAt c))]"

definition opt_json :: "('a \<Rightarrow> json) \<Rightarrow> 'a option \<Rightarrow> json" where
  "opt_json f v = (case v of None \<Rightarrow> JUndefined | Some x \<Rightarrow> f x)"

text \<open>
  The application: the database and the WebSocket server. A request carries the
  authenticated user's id (\<open>req.user\<close>), the parsed \<open>:id\<close> and, for the data route, the
  \<open>refresh\<close> query parameter; \<open>fetch\<close> stands for \<open>fetchGoogleSheetData\<close> in the
  environment of the request.
\<close>

record app =
  storage :: db
  wss :: server

datatype response = Response nat json

definition sync_route ::
  "int option \<Rightarrow> int \<Rightarrow> nat \<Rightarrow> (string \<Rightarrow> SheetData) \<Rightarrow> app \<Rightarrow> response \<times> app" where
  "sync_route user tableId now fetch a =
     (case user of
        None \<Rightarrow> (Response 401 (JObj [(''message'', JStr ''Not authenticated'')]), a)
      | Some userId \<Rightarrow>
          (case getUserTable tableId userId (storage a) of
             None \<Rightarrow> (Response 404 (JObj [(''message'', JStr ''Table not found'')]), a)
           | Some table \<Rightarrow>
               (let sheetData = fetch (tables_googleSheetUrl table);
                    (updatedTable, d) = updateTable tableId (\<lambda>t. t\<lparr>tables_lastUpdatedAt := now\<rparr>) now (storage a);
                    customColumns = getCustomColumns tableId d;
                    w = broadcastTableUpdate (Num (of_int tableId))
                          [(''message'', JStr ''Data synced''),
                           (''timestamp'', JDate now),
                           (''sheetData'', sheet_json sheetData),
                           (''customColumns'', JArr (map column_json customColumns)),
                           (''table'', opt_json table_json updatedTable)] (wss a)
                in (Response 200
                      (JObj [(''success'', JBool True),
                             (''table'', opt_json table_json updatedTable),
                             (''sheetData'', sheet_json sheetData),
                             (''customColumns'', JArr (map column_json customColumns)),
                             (''lastUpdated'', opt_json (\<lambda>t. JDate (tables_lastUpdatedAt t)) updatedTable)]),
                    \<lparr>storage = d, wss = w\<rparr>))))"

definition data_route ::
  "int option \<Rightarrow> int \<Rightarrow> string option \<Rightarrow> nat \<Rightarrow> (string \<Rightarrow> SheetData) \<Rightarrow> app \<Rightarrow> response \<times> app" where
  "data_route user tableId refresh now fetch a =
     (case user of
        None \<Rightarrow> (Response 401 (JObj [(''message'', JStr ''Not authenticated'')]), a)
      | Some userId \<Rightarrow>
          (case getUserTable tableId userId (storage a) of
             None \<Rightarrow> (Response 404 (JObj [(''message'', JStr ''Table not found'')]), a)
           | Some table \<Rightarrow>
               (let sheetData = fetch (tables_googleSheetUrl table);
                    (updatedTable, d) = updateTable tableId (\<lambda>t. t\<lparr>tables_lastUpdatedAt := now\<rparr>) now (storage a);
                    customColumns = getCustomColumns tableId d;
                    w = (if refresh = Some ''true''
                         then broadcastTableUpdate (Num (of_int tableId))
                                [(''type'', JStr ''dataRefreshed''),
                                 (''message'', JStr ''Data refreshed''),
                                 (''sheetData'', sheet_json sheetData),
                                 (''customColumns'', JArr (map column_json customColumns)),
                                 (''table'', opt_json table_json updatedTable)] (wss a)
                         else wss a)
                in (Response 200
                      (JObj [(''table'', opt_json table_json updatedTable),
                             (''customColumns'', JArr (map column_json customColumns)),
                             (''sheetData'', sheet_json sheetData)]),
                    \<lparr>storage = d, wss = w\<rparr>))))"

section \<open>Properties of the subscription state\<close>

text \<open>
  The router side: the tracked sockets are distinct, and every entry of
  \<open>tableSubscriptions\<close> is a non-empty set of tracked sockets that each list the table.
  The socket side, for one table: every tracked socket that lists the table is among the
  table's subscribers.
\<close>

definition router_ok :: "server \<Rightarrow> bool" where
  "router_ok s \<longleftrightarrow>
     distinct (clients s) \<and>
     (\<forall>T subs. tableSubscriptions s T = Some subs \<longrightarrow>
        subs \<noteq> [] \<and> distinct subs \<and>
        (\<forall>c \<in> set subs. c \<in> set (clients s) \<and> T \<in> set (subscribedTables (sockets s c))))"

definition local_ok :: "number \<Rightarrow> server \<Rightarrow> bool" where
  "local_ok T s \<longleftrightarrow>
     (\<forall>c \<in> set (clients s). T \<in> set (subscribedTables (sockets s c)) \<longrightarrow> c \<in> set (subscribers s T))"

text \<open>What one heartbeat pass does to one socket.\<close>

definition sweep_one :: "ExtendedWebSocket \<Rightarrow> ExtendedWebSocket" where
  "sweep_one w = (if isAlive w = False then w\<lparr>readyState := CLOSING\<rparr>
                  else w\<lparr>isAlive := False, pings := pings w + 1\<rparr>)"

text \<open>
  The events that leave the liveness of connection \<open>c\<close> alone between two heartbeat
  passes: no pong of \<open>c\<close>, no close of \<open>c\<close>, no pass.
\<close>

definition quiet :: "conn \<Rightarrow> event \<Rightarrow> bool" where
  "quiet c e = (case e of Pong c' \<Rightarrow> c' \<noteq> c | Close c' \<Rightarrow> c' \<noteq> c | Sweep \<Rightarrow> False | _ \<Rightarrow> True)"

text \<open>The registry and router part of the state: everything but the logs of calls.\<close>

definition registry_router ::
  "server \<Rightarrow> conn list \<times> (conn \<Rightarrow> bool \<times> number list \<times> readyState) \<times> (number \<rightharpoonup> conn list)" where
  "registry_router s =
     (clients s,
      (\<lambda>c. (isAlive (sockets s c), subscribedTables (sockets s c), readyState (sockets s c))),
      tableSubscriptions s)"

text \<open>
  The shape of a parsed message: its \<open>type\<close> is one of the two requests, its \<open>tableId\<close> is
  a number, its \<open>tableId\<close> is an integer.
\<close>

definition is_sub_or_unsub :: "json \<Rightarrow> bool" where
  "is_sub_or_unsub data =
     (get_prop data ''type'' = Inr (JStr ''subscribe'') \<or> get_prop data ''type'' = Inr (JStr ''unsubscribe''))"

definition has_number_tableId :: "json \<Rightarrow> bool" where
  "has_number_tableId data =
     (case get_prop data ''tableId'' of Inr (JNum n) \<Rightarrow> True | _ \<Rightarrow> False)"

definition has_integer_tableId :: "json \<Rightarrow> bool" where
  "has_integer_tableId data =
     (case get_prop data ''tableId'' of Inr (JNum n) \<Rightarrow> isInteger n | _ \<Rightarrow> False)"

section \<open>Properties of the stored column values\<close>







section \<open>Concrete messages, traces and states\<close>

definition subscribe_frame :: "number \<Rightarrow> frame" where
  "subscribe_frame T = Text (JObj [(''type'', JStr ''subscribe''), (''tableId'', JNum T)])"

definition unsubscribe_frame :: "number \<Rightarrow> frame" where
  "unsubscribe_frame T = Text (JObj [(''type'', JStr ''unsubscribe''), (''tableId'', JNum T)])"

definition subscribe_42 :: json where
  "subscribe_42 = JObj [(''type'', JStr ''subscribe''), (''tableId'', JNum (Num 42))]"

definition fractional_subscribe :: json where
  "fractional_subscribe = JObj [(''type'', JStr ''subscribe''), (''tableId'', JNum (Num (3 / 2)))]"

definition ping_frame :: json where
  "ping_frame = JObj [(''type'', JStr ''ping''), (''tableId'', JNum (Num 42))]"

definition text_tableId :: json where
  "text_tableId = JObj [(''type'', JStr ''subscribe''), (''tableId'', JStr ''42'')]"

definition column_added :: "(string \<times> json) list" where
  "column_added = [(''type'', JStr ''columnAdded'')]"

definition one_client :: server where
  "one_client = run [Connection 0] init"

definition deleted_trace :: "event list" where
  "deleted_trace = [Connection 0, Message 0 (subscribe_frame (Num 42)), TableDeleted (Num 42)]"

definition quiet_trace :: "event list" where
  "quiet_trace = [Connection 0, Message 0 (subscribe_frame (Num 42)),
                  Message 0 (subscribe_frame (Num 7)), Connection 1,
                  Message 1 (subscribe_frame (Num 42)), TableDeleted (Num 7),
                  Message 0 (unsubscribe_frame (Num 42)), Sweep]"

definition two_clients :: "event list" where
  "two_clients = [Connection 0, Connection 1, Message 1 (subscribe_frame (Num 42))]"

definition lone_subscriber :: "event list" where
  "lone_subscriber = [Connection 0, Connection 1, Message 0 (subscribe_frame (Num 42)),
                      Message 1 (subscribe_frame (Num 42)), Message 1 (subscribe_frame (Num 7)),
                      Close 1]"

definition fan_trace :: "event list" where
  "fan_trace = [Connection 0, Connection 1, Connection 2, Connection 3,
                Message 0 (subscribe_frame (Num 42)), Message 1 (subscribe_frame (Num 42)),
                Message 2 (subscribe_frame (Num 7)), Message 3 (subscribe_frame (Num 42)),
                Sweep, Pong 0, Pong 1, Pong 2, Sweep]"

definition silent_trace :: "event list" where
  "silent_trace = [Connection 0, Connection 1, Message 0 (subscribe_frame (Num 42)),
                   Message 0 (subscribe_frame (Num 7)), Message 1 (subscribe_frame (Num 7))]"

definition between_sweeps :: "event list" where
  "between_sweeps = [Pong 1, Message 0 (subscribe_frame (Num 9)), Broadcast (Num 7) column_added]"

definition sheet_url :: string where
  "sheet_url = ''https://docs.google.com/spreadsheets/d/1BxiMVs0XRA5nFMdKvBdBZjgmUUqptlbs74OgvE2upms/edit''"

definition sheet_id :: string where
  "sheet_id = ''1BxiMVs0XRA5nFMdKvBdBZjgmUUqptlbs74OgvE2upms''"

definition env_of :: "string option \<Rightarrow> (exn + row list option) \<Rightarrow> google_env" where
  "env_of key outcome = \<lparr>GOOGLE_SHEETS_API_KEY = key, values_get = (\<lambda>spreadsheetId apiKey. outcome)\<rparr>"

definition small_sheet :: "row list" where
  "small_sheet = [Arr [CVal ''Name'', CNull, CVal ''Due''],
                  Arr [CVal ''Ann'', CVal ''3''],
                  NotArr True,
                  Arr [CVal ''Bob'', CUndefined, CVal ''May'', CVal ''x'']]"







definition budget_app :: app where
  "budget_app =
     \<lparr>storage =
        \<lparr>tables = [\<lparr>tables_id = 1, tables_userId = 7, tables_name = ''Budget'',
                     tables_googleSheetUrl = sheet_url, tables_columns = JArr [],
                     tables_createdAt = 5, tables_lastUpdatedAt = 5\<rparr>],
         customColumns = [\<lparr>customColumns_id = 3, customColumns_tableId = 1,
                            customColumns_name = ''Status'', customColumns_type = ''text'',
                            customColumns_createdAt = 6\<rparr>],
         columnValues = [], columnValues_id_seq = 1\<rparr>,
      wss = run [Connection 0, Message 0 (subscribe_frame (Num 1))] init\<rparr>"

definition one_cell :: "string \<Rightarrow> SheetData" where
  "one_cell url = \<lparr>headers = [''A''], rows = [[''1'']]\<rparr>"

definition last_sent :: "conn \<Rightarrow> response \<times> app \<Rightarrow> json" where
  "last_sent c out = last (sent (sockets (wss (snd out)) c))"

section \<open>Proofs\<close>

subsection \<open>The \<open>Set\<close> operations\<close>

lemma set_set_add [simp]: "set (set_add x xs) = insert x (set xs)"
  by (auto simp: set_add_def)

lemma distinct_set_add [simp]: "distinct (set_add x xs) = distinct xs"
  by (auto simp: set_add_def)

lemma set_add_not_Nil [simp]: "set_add x xs \<noteq> []"
  by (auto simp: set_add_def)

lemma set_add_idem [simp]: "set_add x (set_add x xs) = set_add x xs"
  by (simp add: set_add_def)

lemma set_set_delete [simp]: "set (set_delete x xs) = set xs - {x}"
  by (auto simp: set_delete_def)

lemma distinct_set_delete [simp]: "distinct xs \<Longrightarrow> distinct (set_delete x xs)"
  by (simp add: set_delete_def distinct_removeAll)

subsection \<open>What each handler does to the fields of the server\<close>

lemma clients_init [simp]: "clients init = []"
  by (simp add: init_def)

lemma subs_init [simp]: "tableSubscriptions init = Map.empty"
  by (simp add: init_def)

lemma sockets_init [simp]: "sockets init = (\<lambda>c. new_socket)"
  by (simp add: init_def)

lemma clients_upd_socket [simp]: "clients (upd_socket c f s) = clients s"
  by (simp add: upd_socket_def)

lemma subs_upd_socket [simp]: "tableSubscriptions (upd_socket c f s) = tableSubscriptions s"
  by (simp add: upd_socket_def)

lemma sockets_upd_socket [simp]: "sockets (upd_socket c f s) = (sockets s)(c := f (sockets s c))"
  by (simp add: upd_socket_def)

lemma clients_send [simp]: "clients (send c m s) = clients s"
  by (simp add: send_def)

lemma subs_send [simp]: "tableSubscriptions (send c m s) = tableSubscriptions s"
  by (simp add: send_def)

lemma sockets_send [simp]:
  "sockets (send c m s) = (sockets s)(c := (sockets s c)\<lparr>sent := sent (sockets s c) @ [m]\<rparr>)"
  by (simp add: send_def)

lemma clients_on_connection [simp]: "clients (on_connection c s) = set_add c (clients s)"
  by (simp add: on_connection_def)

lemma subs_on_connection [simp]: "tableSubscriptions (on_connection c s) = tableSubscriptions s"
  by (simp add: on_connection_def)

lemma sockets_on_connection [simp]: "sockets (on_connection c s) = (sockets s)(c := new_socket)"
  by (simp add: on_connection_def)

lemma clients_on_pong [simp]: "clients (on_pong c s) = clients s"
  by (simp add: on_pong_def)

lemma subs_on_pong [simp]: "tableSubscriptions (on_pong c s) = tableSubscriptions s"
  by (simp add: on_pong_def)

lemma sockets_on_pong [simp]: "sockets (on_pong c s) = (sockets s)(c := (sockets s c)\<lparr>isAlive := True\<rparr>)"
  by (simp add: on_pong_def)

lemma clients_subscribe [simp]: "clients (subscribe c T s) = clients s"
  by (simp add: subscribe_def Let_def split: option.splits)

lemma subs_subscribe:
  "tableSubscriptions (subscribe c T s) = (tableSubscriptions s)(T \<mapsto> set_add c (subscribers s T))"
  by (auto simp: subscribe_def subscribers_def Let_def split: option.splits)

lemma sockets_subscribe:
  "sockets (subscribe c T s) =
     (sockets s)(c := (sockets s c)\<lparr>subscribedTables := set_add T (subscribedTables (sockets s c)),
                                     sent := sent (sockets s c) @ [subscribed_msg T]\<rparr>)"
  by (auto simp: subscribe_def Let_def split: option.splits)

lemma subscribers_subscribe:
  "subscribers (subscribe c T s) T' = (if T' = T then set_add c (subscribers s T) else subscribers s T')"
  by (simp add: subscribers_def subs_subscribe)

lemma clients_drop [simp]: "clients (drop_subscriber c T s) = clients s"
  by (simp add: drop_subscriber_def Let_def split: option.splits)

lemma sockets_drop [simp]: "sockets (drop_subscriber c T s) = sockets s"
  by (simp add: drop_subscriber_def Let_def split: option.splits)

lemma subs_drop:
  "tableSubscriptions (drop_subscriber c T s) =
     (tableSubscriptions s)(T :=
          (case tableSubscriptions s T of
             None \<Rightarrow> None
           | Some subs \<Rightarrow> if removeAll c subs = [] then None else Some (removeAll c subs)))"
  by (auto simp: drop_subscriber_def set_delete_def Let_def split: option.splits)

lemma clients_unsubscribe [simp]: "clients (unsubscribe c T s) = clients s"
  by (simp add: unsubscribe_def Let_def)

lemma subs_unsubscribe:
  "tableSubscriptions (unsubscribe c T s) =
     (tableSubscriptions s)(T :=
          (case tableSubscriptions s T of
             None \<Rightarrow> None
           | Some subs \<Rightarrow> if removeAll c subs = [] then None else Some (removeAll c subs)))"
  by (simp add: unsubscribe_def Let_def subs_drop)

lemma sockets_unsubscribe:
  "sockets (unsubscribe c T s) =
     (sockets s)(c := (sockets s c)\<lparr>subscribedTables := set_delete T (subscribedTables (sockets s c)),
                                     sent := sent (sockets s c) @ [unsubscribed_msg T]\<rparr>)"
  by (simp add: unsubscribe_def Let_def)

lemma clients_fold_drop [simp]: "clients (fold (drop_subscriber c) Ts s) = clients s"
  by (induction Ts arbitrary: s) auto

lemma sockets_fold_drop [simp]: "sockets (fold (drop_subscriber c) Ts s) = sockets s"
  by (induction Ts arbitrary: s) auto

lemma subs_fold_drop:
  "tableSubscriptions (fold (drop_subscriber c) Ts s) T =
     (if T \<in> set Ts
      then (case tableSubscriptions s T of
              None \<Rightarrow> None
            | Some subs \<Rightarrow> if removeAll c subs = [] then None else Some (removeAll c subs))
      else tableSubscriptions s T)"
  by (induction Ts arbitrary: s) (auto simp: subs_drop split: option.splits)

lemma clients_on_close [simp]: "clients (on_close c s) = removeAll c (clients s)"
  by (simp add: on_close_def close_cleanup_def Let_def set_delete_def)

lemma subs_on_close:
  "tableSubscriptions (on_close c s) T =
     (if T \<in> set (subscribedTables (sockets s c))
      then (case tableSubscriptions s T of
              None \<Rightarrow> None
            | Some subs \<Rightarrow> if removeAll c subs = [] then None else Some (removeAll c subs))
      else tableSubscriptions s T)"
  by (simp add: on_close_def close_cleanup_def Let_def subs_fold_drop)

lemma sockets_on_close:
  "sockets (on_close c s) = (sockets s)(c := (sockets s c)\<lparr>readyState := CLOSED\<rparr>)"
  by (simp add: on_close_def close_cleanup_def Let_def)

subsection \<open>The heartbeat pass\<close>

lemma sweep_client_eq: "sweep_client c s = upd_socket c sweep_one s"
  by (simp add: sweep_client_def sweep_one_def terminate_def ping_def upd_socket_def)

lemma clients_fold_sweep [simp]: "clients (fold sweep_client cs s) = clients s"
  by (induction cs arbitrary: s) (auto simp: sweep_client_eq)

lemma subs_fold_sweep [simp]: "tableSubscriptions (fold sweep_client cs s) = tableSubscriptions s"
  by (induction cs arbitrary: s) (auto simp: sweep_client_eq)

lemma sockets_fold_sweep:
  "distinct cs \<Longrightarrow>
   sockets (fold sweep_client cs s) c = (if c \<in> set cs then sweep_one (sockets s c) else sockets s c)"
  by (induction cs arbitrary: s) (auto simp: sweep_client_eq)

lemma tables_sweep_one [simp]: "subscribedTables (sweep_one w) = subscribedTables w"
  by (simp add: sweep_one_def)

lemma sent_sweep_one [simp]: "sent (sweep_one w) = sent w"
  by (simp add: sweep_one_def)

lemma tables_fold_sweep [simp]:
  "subscribedTables (sockets (fold sweep_client cs s) c) = subscribedTables (sockets s c)"
  by (induction cs arbitrary: s) (auto simp: sweep_client_eq)

lemma clients_sweep [simp]: "clients (sweep s) = clients s"
  by (simp add: sweep_def)

lemma subs_sweep [simp]: "tableSubscriptions (sweep s) = tableSubscriptions s"
  by (simp add: sweep_def)

lemma sockets_sweep:
  "distinct (clients s) \<Longrightarrow>
   sockets (sweep s) c = (if c \<in> set (clients s) then sweep_one (sockets s c) else sockets s c)"
  by (simp add: sweep_def sockets_fold_sweep)

subsection \<open>The broadcast loop and the deletion of a table\<close>

lemma clients_deliver [simp]: "clients (deliver m c s) = clients s"
  by (simp add: deliver_def)

lemma subs_deliver [simp]: "tableSubscriptions (deliver m c s) = tableSubscriptions s"
  by (simp add: deliver_def)

lemma clients_fold_deliver [simp]: "clients (fold (deliver m) cs s) = clients s"
  by (induction cs arbitrary: s) auto

lemma subs_fold_deliver [simp]: "tableSubscriptions (fold (deliver m) cs s) = tableSubscriptions s"
  by (induction cs arbitrary: s) auto

lemma tables_fold_deliver [simp]:
  "subscribedTables (sockets (fold (deliver m) cs s) c) = subscribedTables (sockets s c)"
  by (induction cs arbitrary: s) (auto simp: deliver_def)

lemma ready_fold_deliver [simp]:
  "readyState (sockets (fold (deliver m) cs s) c) = readyState (sockets s c)"
  by (induction cs arbitrary: s) (auto simp: deliver_def)

lemma alive_fold_deliver [simp]:
  "isAlive (sockets (fold (deliver m) cs s) c) = isAlive (sockets s c)"
  by (induction cs arbitrary: s) (auto simp: deliver_def)

lemma sockets_fold_deliver:
  "distinct cs \<Longrightarrow>
   sockets (fold (deliver m) cs s) c =
     (if c \<in> set cs \<and> readyState (sockets s c) = OPEN
      then (sockets s c)\<lparr>sent := sent (sockets s c) @ [m]\<rparr>
      else sockets s c)"
  by (induction cs arbitrary: s) (auto simp: deliver_def)

lemma clients_broadcast [simp]: "clients (broadcastTableUpdate T d s) = clients s"
  by (simp add: broadcastTableUpdate_def split: option.splits)

lemma subs_broadcast [simp]: "tableSubscriptions (broadcastTableUpdate T d s) = tableSubscriptions s"
  by (simp add: broadcastTableUpdate_def split: option.splits)

lemma tables_broadcast [simp]:
  "subscribedTables (sockets (broadcastTableUpdate T d s) c) = subscribedTables (sockets s c)"
  by (simp add: broadcastTableUpdate_def split: option.splits)

lemma ready_broadcast [simp]:
  "readyState (sockets (broadcastTableUpdate T d s) c) = readyState (sockets s c)"
  by (simp add: broadcastTableUpdate_def split: option.splits)

lemma alive_broadcast [simp]:
  "isAlive (sockets (broadcastTableUpdate T d s) c) = isAlive (sockets s c)"
  by (simp add: broadcastTableUpdate_def split: option.splits)

lemma sockets_broadcast:
  "distinct (subscribers s T) \<Longrightarrow>
   sockets (broadcastTableUpdate T d s) c =
     (if c \<in> set (subscribers s T) \<and> readyState (sockets s c) = OPEN
      then (sockets s c)\<lparr>sent := sent (sockets s c) @ [envelope T d]\<rparr>
      else sockets s c)"
  by (auto simp: broadcastTableUpdate_def subscribers_def sockets_fold_deliver split: option.splits)

lemma clients_table_deleted [simp]: "clients (table_deleted T s) = clients s"
  by (simp add: table_deleted_def Let_def)

lemma subs_table_deleted [simp]:
  "tableSubscriptions (table_deleted T s) = (tableSubscriptions s)(T := None)"
  by (simp add: table_deleted_def Let_def)

lemma tables_table_deleted [simp]:
  "subscribedTables (sockets (table_deleted T s) c) = subscribedTables (sockets s c)"
  by (simp add: table_deleted_def Let_def)

subsection \<open>The message handler\<close>

lemma typeof_number_iff: "typeof_number v \<longleftrightarrow> (\<exists>n. v = JNum n)"
  by (cases v) auto

lemma is_request_eq:
  "is_request data name =
     (case get_prop data ''type'' of
        Inl e \<Rightarrow> Inl e
      | Inr ty \<Rightarrow> Inr (ty = JStr name \<and> has_number_tableId data))"
proof (cases data)
  case (JObj kvs)
  then show ?thesis
    by (auto simp: is_request_def has_number_tableId_def typeof_number_iff
             split: option.splits json.splits)
qed (simp_all add: is_request_def has_number_tableId_def)

lemma on_message_cases:
  "on_message c m s = Inr s \<or>
   (\<exists>T. on_message c m s = Inr (subscribe c T s)) \<or>
   (\<exists>T. on_message c m s = Inr (unsubscribe c T s))"
  by (auto simp: on_message_def message_body_def split: sum.splits bool.splits)

lemma on_message_subscribe_frame [simp]:
  "on_message c (subscribe_frame T) s = Inr (subscribe c T s)"
  by (simp add: on_message_def message_body_def is_request_def tableId_of_def subscribe_frame_def)

lemma on_message_unsubscribe_frame [simp]:
  "on_message c (unsubscribe_frame T) s = Inr (unsubscribe c T s)"
  by (simp add: on_message_def message_body_def is_request_def tableId_of_def unsubscribe_frame_def)

subsection \<open>The invariants hold along every trace\<close>

lemma in_subscribers:
  "c \<in> set (subscribers s T) \<longleftrightarrow> (\<exists>subs. tableSubscriptions s T = Some subs \<and> c \<in> set subs)"
  by (cases "tableSubscriptions s T") (auto simp: subscribers_def)

lemma router_ok_init: "router_ok init"
  by (simp add: router_ok_def init_def)

lemma local_ok_init: "local_ok T init"
  by (simp add: local_ok_def init_def)

lemma router_ok_connection: "router_ok s \<Longrightarrow> c \<notin> set (clients s) \<Longrightarrow> router_ok (on_connection c s)"
  unfolding router_ok_def on_connection_def by (auto simp: new_socket_def)

lemma router_ok_pong: "router_ok s \<Longrightarrow> router_ok (on_pong c s)"
  unfolding router_ok_def on_pong_def by auto

lemma router_ok_subscribe: "router_ok s \<Longrightarrow> c \<in> set (clients s) \<Longrightarrow> router_ok (subscribe c T s)"
  unfolding router_ok_def
  by (auto simp: subs_subscribe sockets_subscribe subscribers_def split: option.splits if_splits)

lemma router_ok_unsubscribe: "router_ok s \<Longrightarrow> router_ok (unsubscribe c T s)"
  unfolding router_ok_def
  by (auto simp: subs_unsubscribe sockets_unsubscribe distinct_removeAll split: option.splits if_splits)

lemma router_ok_close: "router_ok s \<Longrightarrow> router_ok (on_close c s)"
  unfolding router_ok_def
  by (auto simp: subs_on_close sockets_on_close distinct_removeAll split: option.splits if_splits)

lemma router_ok_sweep: "router_ok s \<Longrightarrow> router_ok (sweep s)"
  unfolding router_ok_def sweep_def by auto

lemma router_ok_broadcast: "router_ok s \<Longrightarrow> router_ok (broadcastTableUpdate T d s)"
  unfolding router_ok_def by auto

lemma router_ok_deleted: "router_ok s \<Longrightarrow> router_ok (table_deleted T s)"
  unfolding router_ok_def table_deleted_def Let_def by auto

lemma router_ok_step: "router_ok s \<Longrightarrow> router_ok (step e s)"
proof (cases e)
  case (Message c m)
  assume ok: "router_ok s"
  show ?thesis
  proof (cases "c \<in> set (clients s)")
    case True
    with ok Message show ?thesis
      using on_message_cases [of c m s]
      by (auto simp: router_ok_subscribe router_ok_unsubscribe)
  next
    case False
    with ok Message show ?thesis by simp
  qed
qed (auto simp: router_ok_connection router_ok_pong router_ok_close router_ok_sweep
          router_ok_broadcast router_ok_deleted)

lemma router_ok_run: "router_ok s \<Longrightarrow> router_ok (run evs s)"
  unfolding run_def by (induction evs arbitrary: s) (auto simp: router_ok_step)

lemma router_ok_reach: "router_ok (run evs init)"
  by (rule router_ok_run [OF router_ok_init])

lemma router_ok_distinct: "router_ok s \<Longrightarrow> distinct (subscribers s T)"
  by (auto simp: router_ok_def subscribers_def split: option.splits)

lemma router_ok_nonempty: "router_ok s \<Longrightarrow> tableSubscriptions s T \<noteq> Some []"
  by (auto simp: router_ok_def)

lemma router_ok_tracked: "router_ok s \<Longrightarrow> c \<in> set (subscribers s T) \<Longrightarrow> c \<in> set (clients s)"
  by (auto simp: router_ok_def in_subscribers)

lemma local_ok_connection: "local_ok T s \<Longrightarrow> c \<notin> set (clients s) \<Longrightarrow> local_ok T (on_connection c s)"
  unfolding local_ok_def by (auto simp: new_socket_def in_subscribers)

lemma local_ok_pong: "local_ok T s \<Longrightarrow> local_ok T (on_pong c s)"
  unfolding local_ok_def by (auto simp: in_subscribers)

lemma local_ok_subscribe: "local_ok T s \<Longrightarrow> local_ok T (subscribe c U s)"
  unfolding local_ok_def
  by (auto simp: subs_subscribe sockets_subscribe in_subscribers split: if_splits)

lemma pruned_keeps_other:
  assumes "tableSubscriptions s T = Some subs" "ca \<in> set subs" "ca \<noteq> c"
  shows "\<exists>subs'. (case tableSubscriptions s T of
                     None \<Rightarrow> None
                   | Some subs \<Rightarrow> if removeAll c subs = [] then None else Some (removeAll c subs)) = Some subs'
                 \<and> ca \<in> set subs'"
proof -
  from assms have "ca \<in> set (removeAll c subs)" by simp
  moreover from this have "removeAll c subs \<noteq> []"
    by (metis empty_iff empty_set)
  ultimately show ?thesis using assms(1) by simp
qed

lemma local_ok_unsubscribe:
  assumes "local_ok T s"
  shows "local_ok T (unsubscribe c U s)"
  unfolding local_ok_def in_subscribers
proof (intro ballI impI)
  fix ca
  assume ca: "ca \<in> set (clients (unsubscribe c U s))"
    and T: "T \<in> set (subscribedTables (sockets (unsubscribe c U s) ca))"
  from T have old: "T \<in> set (subscribedTables (sockets s ca))"
    by (auto simp: sockets_unsubscribe split: if_splits)
  with ca assms obtain subs where subs: "tableSubscriptions s T = Some subs" "ca \<in> set subs"
    by (auto simp: local_ok_def in_subscribers)
  show "\<exists>subs. tableSubscriptions (unsubscribe c U s) T = Some subs \<and> ca \<in> set subs"
  proof (cases "T = U")
    case False
    with subs show ?thesis by (simp add: subs_unsubscribe)
  next
    case True
    with T have "ca \<noteq> c" by (auto simp: sockets_unsubscribe)
    with subs True show ?thesis
      using pruned_keeps_other [of s U subs ca c] by (simp add: subs_unsubscribe)
  qed
qed

lemma local_ok_close:
  assumes "local_ok T s"
  shows "local_ok T (on_close c s)"
  unfolding local_ok_def in_subscribers
proof (intro ballI impI)
  fix ca
  assume ca: "ca \<in> set (clients (on_close c s))"
    and T: "T \<in> set (subscribedTables (sockets (on_close c s) ca))"
  from ca have ne: "ca \<noteq> c" and cl: "ca \<in> set (clients s)" by auto
  from T ne have old: "T \<in> set (subscribedTables (sockets s ca))"
    by (simp add: sockets_on_close)
  with cl assms obtain subs where subs: "tableSubscriptions s T = Some subs" "ca \<in> set subs"
    by (auto simp: local_ok_def in_subscribers)
  show "\<exists>subs. tableSubscriptions (on_close c s) T = Some subs \<and> ca \<in> set subs"
    using subs ne pruned_keeps_other [of s T subs ca c] by (simp add: subs_on_close)
qed

lemma local_ok_sweep: "local_ok T s \<Longrightarrow> local_ok T (sweep s)"
  unfolding local_ok_def sweep_def by (auto simp: in_subscribers)

lemma local_ok_broadcast: "local_ok T s \<Longrightarrow> local_ok T (broadcastTableUpdate U d s)"
  unfolding local_ok_def by (auto simp: in_subscribers)

lemma local_ok_deleted: "local_ok T s \<Longrightarrow> U \<noteq> T \<Longrightarrow> local_ok T (table_deleted U s)"
  unfolding local_ok_def by (auto simp: in_subscribers)

lemma local_ok_step:
  "local_ok T s \<Longrightarrow> e \<noteq> TableDeleted T \<Longrightarrow> local_ok T (step e s)"
proof (cases e)
  case (Message c m)
  assume ok: "local_ok T s"
  show ?thesis
    using ok Message on_message_cases [of c m s]
    by (auto simp: local_ok_subscribe local_ok_unsubscribe)
qed (auto simp: local_ok_connection local_ok_pong local_ok_close local_ok_sweep local_ok_broadcast
          local_ok_deleted)

lemma local_ok_run: "local_ok T s \<Longrightarrow> TableDeleted T \<notin> set evs \<Longrightarrow> local_ok T (run evs s)"
  unfolding run_def
  by (induction evs arbitrary: s) (auto simp: local_ok_step)

subsection \<open>Evaluating traces and routes on concrete states\<close>

text \<open>The definitions to unfold when a trace is evaluated on concrete sockets and tables.\<close>

lemmas eval_defs =
  run_def init_def new_socket_def on_connection_def on_pong_def on_message_def message_body_def
  is_request_def tableId_of_def subscribe_def unsubscribe_def drop_subscriber_def send_def
  upd_socket_def set_add_def set_delete_def subscribed_msg_def unsubscribed_msg_def
  on_close_def close_cleanup_def sweep_def sweep_client_def terminate_def ping_def
  broadcastTableUpdate_def deliver_def envelope_def spread_def table_deleted_def
  subscribers_def subscribe_frame_def unsubscribe_frame_def Let_def

lemmas trace_simps =
  run_def set_add_def set_delete_def subscribers_def new_socket_def sweep_one_def
  subs_subscribe sockets_subscribe subs_unsubscribe sockets_unsubscribe
  subs_on_close sockets_on_close sockets_sweep sockets_broadcast

text \<open>The definitions to unfold when a route is evaluated on a concrete application state.\<close>

lemmas route_defs =
  sync_route_def data_route_def getUserTable_def updateTable_def getCustomColumns_def
  first_row_def opt_json_def budget_app_def one_cell_def last_sent_def

section \<open>The claims\<close>

subsection \<open>C1: subscription symmetry\<close>

text \<open>
  C1, as amended. After any sequence of events from the empty state, a connection in the
  subscriber set of table \<open>T\<close> is tracked and has \<open>T\<close> in its \<open>subscribedTables\<close>; and when
  the sequence holds no deletion of table \<open>T\<close> itself, a tracked connection with \<open>T\<close> in its
  \<open>subscribedTables\<close> is in the subscriber set of \<open>T\<close>, so the two sides agree on \<open>T\<close>,
  whatever other tables were deleted.
\<close>

theorem subscription_symmetry:
  assumes "s = run evs init"
  shows "(c \<in> set (subscribers s T) \<longrightarrow>
            c \<in> set (clients s) \<and> T \<in> set (subscribedTables (sockets s c)))
       \<and> (TableDeleted T \<notin> set evs \<longrightarrow> c \<in> set (clients s) \<longrightarrow>
            (c \<in> set (subscribers s T)) = (T \<in> set (subscribedTables (sockets s c))))"
proof -
  have r: "router_ok s"
    using assms router_ok_run [OF router_ok_init] by simp
  have l: "TableDeleted T \<notin> set evs \<Longrightarrow> local_ok T s"
    using assms local_ok_run [OF local_ok_init] by simp
  from r have a: "c \<in> set (subscribers s T) \<longrightarrow>
            c \<in> set (clients s) \<and> T \<in> set (subscribedTables (sockets s c))"
    by (auto simp: router_ok_def in_subscribers)
  from l have "TableDeleted T \<notin> set evs \<longrightarrow> c \<in> set (clients s) \<longrightarrow>
            T \<in> set (subscribedTables (sockets s c)) \<longrightarrow> c \<in> set (subscribers s T)"
    by (auto simp: local_ok_def)
  with a show ?thesis by blast
qed

text \<open>
  The amended C1 on a trace that deletes table 7 and not table 42: connections 0 and 1
  subscribe to table 42, connection 0 also to table 7, table 7 is deleted, 0 unsubscribes
  from 42, a heartbeat pass runs. The two sides agree on table 42.
\<close>

theorem subscription_symmetry_witness:
  "TableDeleted (Num 42) \<notin> set quiet_trace
   \<and> TableDeleted (Num 7) \<in> set quiet_trace
   \<and> 1 \<in> set (clients (run quiet_trace init))
   \<and> Num 42 \<in> set (subscribedTables (sockets (run quiet_trace init) 1))
   \<and> 1 \<in> set (subscribers (run quiet_trace init) (Num 42))
   \<and> 0 \<in> set (clients (run quiet_trace init))
   \<and> Num 42 \<notin> set (subscribedTables (sockets (run quiet_trace init) 0))
   \<and> 0 \<notin> set (subscribers (run quiet_trace init) (Num 42))"
proof -
  have n: "TableDeleted (Num 42) \<notin> set quiet_trace"
    by (simp add: quiet_trace_def)
  have m: "TableDeleted (Num 7) \<in> set quiet_trace"
    by (simp add: quiet_trace_def)
  have c: "1 \<in> set (clients (run quiet_trace init))"
    by (simp add: quiet_trace_def trace_simps)
  have c0: "0 \<in> set (clients (run quiet_trace init))"
    by (simp add: quiet_trace_def trace_simps)
  have t: "Num 42 \<in> set (subscribedTables (sockets (run quiet_trace init) 1))"
    by (simp add: quiet_trace_def trace_simps)
  have z: "Num 42 \<notin> set (subscribedTables (sockets (run quiet_trace init) 0))"
    by (simp add: quiet_trace_def trace_simps)
  from subscription_symmetry [OF refl, of 1 quiet_trace "Num 42"] n c t
  have a: "1 \<in> set (subscribers (run quiet_trace init) (Num 42))" by blast
  from subscription_symmetry [OF refl, of 0 quiet_trace "Num 42"] n c0 z
  have b: "0 \<notin> set (subscribers (run quiet_trace init) (Num 42))" by blast
  from n m c c0 t z a b show ?thesis by blast
qed

text \<open>
  C1 as stated fails once a table is deleted: the route drops the router's entry and leaves
  the table id in the \<open>subscribedTables\<close> of its subscribers. Connection 0 subscribes to
  table 42, table 42 is deleted: 0 still lists 42, and is no subscriber of 42.
\<close>

theorem symmetry_counterexample:
  "0 \<in> set (clients (run deleted_trace init))
   \<and> Num 42 \<in> set (subscribedTables (sockets (run deleted_trace init) 0))
   \<and> 0 \<notin> set (subscribers (run deleted_trace init) (Num 42))"
  by (simp add: deleted_trace_def eval_defs)

subsection \<open>C2: the broadcast of a resync\<close>

text \<open>
  C2 fails on \<open>POST /api/tables/:id/sync\<close>. User 7 owns table 1 and connection 0 is
  subscribed to it. The sync route persists the timestamp and broadcasts one message:
  its \<open>type\<close> is \<open>tableUpdate\<close>, the envelope's own, since the route passes no \<open>type\<close>; it
  carries \<open>message\<close>, \<open>timestamp\<close>, \<open>sheetData\<close>, \<open>customColumns\<close> and \<open>table\<close>, and no
  \<open>dataRefreshed\<close> tag. The sibling route \<open>GET /api/tables/:id/data?refresh=true\<close> does tag
  its broadcast \<open>dataRefreshed\<close>.
\<close>

theorem sync_broadcast_untagged:
  "map tables_lastUpdatedAt (tables (storage (snd (sync_route (Some 7) 1 100 one_cell budget_app)))) = [100]
   \<and> length (sent (sockets (wss (snd (sync_route (Some 7) 1 100 one_cell budget_app))) 0)) = 2
   \<and> get_prop (last_sent 0 (sync_route (Some 7) 1 100 one_cell budget_app)) ''type''
        = Inr (JStr ''tableUpdate'')
   \<and> get_prop (last_sent 0 (sync_route (Some 7) 1 100 one_cell budget_app)) ''type''
        \<noteq> Inr (JStr ''dataRefreshed'')
   \<and> get_prop (last_sent 0 (sync_route (Some 7) 1 100 one_cell budget_app)) ''message''
        = Inr (JStr ''Data synced'')
   \<and> get_prop (last_sent 0 (sync_route (Some 7) 1 100 one_cell budget_app)) ''sheetData''
        = Inr (sheet_json (one_cell sheet_url))
   \<and> get_prop (last_sent 0 (data_route (Some 7) 1 (Some ''true'') 100 one_cell budget_app)) ''type''
        = Inr (JStr ''dataRefreshed'')"
  by (simp add: route_defs trace_simps envelope_def spread_def sheet_json_def)

subsection \<open>C3: messages that are no request\<close>

text \<open>
  C3, as amended. A frame that is not JSON text, and a message whose \<open>type\<close> is neither
  \<open>subscribe\<close> nor \<open>unsubscribe\<close> or whose \<open>tableId\<close> is not a number, leave the whole server
  state as it was (every socket's subscriptions and log of sent messages, and the
  subscription map), and the handler returns normally.
\<close>

theorem malformed_message_ignored:
  "on_message c Unparseable s = Inr s
   \<and> (\<not> (is_sub_or_unsub data \<and> has_number_tableId data) \<longrightarrow> on_message c (Text data) s = Inr s)"
  by (auto simp: on_message_def message_body_def is_request_eq is_sub_or_unsub_def
           split: sum.splits bool.splits)

text \<open>
  The amended C3 on a message of another type, on a subscribe message whose \<open>tableId\<close> is a
  string, and on the text \<open>null\<close>, whose property access throws inside the handler.
\<close>

theorem malformed_message_ignored_witness:
  "\<not> (is_sub_or_unsub ping_frame \<and> has_number_tableId ping_frame)
   \<and> on_message 0 (Text ping_frame) one_client = Inr one_client
   \<and> \<not> (is_sub_or_unsub text_tableId \<and> has_number_tableId text_tableId)
   \<and> on_message 0 (Text text_tableId) one_client = Inr one_client
   \<and> \<not> (is_sub_or_unsub JNull \<and> has_number_tableId JNull)
   \<and> on_message 0 (Text JNull) one_client = Inr one_client"
proof -
  have a: "\<not> (is_sub_or_unsub ping_frame \<and> has_number_tableId ping_frame)"
    by (simp add: ping_frame_def is_sub_or_unsub_def)
  have b: "\<not> (is_sub_or_unsub text_tableId \<and> has_number_tableId text_tableId)"
    by (simp add: text_tableId_def has_number_tableId_def)
  have c: "\<not> (is_sub_or_unsub JNull \<and> has_number_tableId JNull)"
    by (simp add: is_sub_or_unsub_def)
  from malformed_message_ignored [of 0 one_client ping_frame]
       malformed_message_ignored [of 0 one_client text_tableId]
       malformed_message_ignored [of 0 one_client JNull] a b c
  show ?thesis by blast
qed

text \<open>
  C3 as stated fails for a \<open>tableId\<close> that is a number and no integer: the handler tests
  \<open>typeof data.tableId === 'number'\<close>, so \<open>{type: 'subscribe', tableId: 1.5}\<close> subscribes
  the connection to table 1.5 and is confirmed.
\<close>

theorem non_integer_tableId_counterexample:
  "\<not> has_integer_tableId fractional_subscribe
   \<and> on_message 0 (Text fractional_subscribe) one_client \<noteq> Inr one_client
   \<and> subscribedTables (sockets (step (Message 0 (Text fractional_subscribe)) one_client) 0)
        = [Num (3 / 2)]
   \<and> tableSubscriptions (step (Message 0 (Text fractional_subscribe)) one_client) (Num (3 / 2))
        = Some [0]
   \<and> sent (sockets (step (Message 0 (Text fractional_subscribe)) one_client) 0)
        = [subscribed_msg (Num (3 / 2))]"
proof -
  have n: "\<not> has_integer_tableId fractional_subscribe"
    by code_simp
  have r: "on_message 0 (Text fractional_subscribe) one_client
             = Inr (subscribe 0 (Num (3 / 2)) one_client)"
    by (simp add: fractional_subscribe_def on_message_def message_body_def is_request_def tableId_of_def)
  have c: "0 \<in> set (clients one_client)"
    by (simp add: one_client_def trace_simps)
  have t: "subscribedTables (sockets (subscribe 0 (Num (3 / 2)) one_client) 0) = [Num (3 / 2)]"
    by (simp add: one_client_def trace_simps)
  have m: "tableSubscriptions (subscribe 0 (Num (3 / 2)) one_client) (Num (3 / 2)) = Some [0]"
    by (simp add: one_client_def trace_simps)
  have l: "sent (sockets (subscribe 0 (Num (3 / 2)) one_client) 0) = [subscribed_msg (Num (3 / 2))]"
    by (simp add: one_client_def trace_simps)
  have "subscribedTables (sockets one_client 0) = []"
    by (simp add: one_client_def trace_simps)
  with t have d: "subscribe 0 (Num (3 / 2)) one_client \<noteq> one_client"
    by auto
  from n r c t m l d show ?thesis by simp
qed

subsection \<open>C4: fan-out\<close>

text \<open>
  C4. In a reachable state where \<open>A\<close> and \<open>B\<close> are open subscribers of table \<open>T\<close> and the
  tracked connection \<open>C\<close> lists only another table \<open>U\<close>, a broadcast to \<open>T\<close> appends the
  message to the logs of \<open>A\<close> and \<open>B\<close> and not to that of \<open>C\<close>; when \<open>A\<close> and \<open>B\<close> are all the
  subscribers of \<open>T\<close>, the connections that receive anything are exactly \<open>A\<close> and \<open>B\<close>; and a
  subscriber that is not open is left untouched and stays a subscriber.
\<close>

theorem fan_out:
  assumes "s = run evs init"
    and "A \<in> set (subscribers s T)" and "readyState (sockets s A) = OPEN"
    and "B \<in> set (subscribers s T)" and "readyState (sockets s B) = OPEN"
    and "C \<in> set (clients s)" and "set (subscribedTables (sockets s C)) = {U}" and "U \<noteq> T"
  shows "sent (sockets (broadcastTableUpdate T d s) A) = sent (sockets s A) @ [envelope T d]
       \<and> sent (sockets (broadcastTableUpdate T d s) B) = sent (sockets s B) @ [envelope T d]
       \<and> sent (sockets (broadcastTableUpdate T d s) C) = sent (sockets s C)
       \<and> (set (subscribers s T) = {A, B} \<longrightarrow>
            {D. sent (sockets (broadcastTableUpdate T d s) D) \<noteq> sent (sockets s D)} = {A, B})
       \<and> (\<forall>D. D \<in> set (subscribers s T) \<and> readyState (sockets s D) \<noteq> OPEN \<longrightarrow>
              sockets (broadcastTableUpdate T d s) D = sockets s D
              \<and> D \<in> set (subscribers (broadcastTableUpdate T d s) T))"
proof -
  have ok: "router_ok s"
    using assms(1) router_ok_reach by simp
  note sock = sockets_broadcast [OF router_ok_distinct [OF ok], of T d]
  have notC: "C \<notin> set (subscribers s T)"
  proof
    assume "C \<in> set (subscribers s T)"
    with ok have "T \<in> set (subscribedTables (sockets s C))"
      by (auto simp: router_ok_def in_subscribers)
    with assms(7,8) show False by simp
  qed
  have a: "sent (sockets (broadcastTableUpdate T d s) A) = sent (sockets s A) @ [envelope T d]"
    using assms(2,3) by (simp add: sock)
  have b: "sent (sockets (broadcastTableUpdate T d s) B) = sent (sockets s B) @ [envelope T d]"
    using assms(4,5) by (simp add: sock)
  have c: "sent (sockets (broadcastTableUpdate T d s) C) = sent (sockets s C)"
    using notC by (simp add: sock)
  have e: "set (subscribers s T) = {A, B} \<longrightarrow>
            {D. sent (sockets (broadcastTableUpdate T d s) D) \<noteq> sent (sockets s D)} = {A, B}"
    using assms(3,5) by (auto simp: sock)
  have f: "\<forall>D. D \<in> set (subscribers s T) \<and> readyState (sockets s D) \<noteq> OPEN \<longrightarrow>
              sockets (broadcastTableUpdate T d s) D = sockets s D
              \<and> D \<in> set (subscribers (broadcastTableUpdate T d s) T)"
    by (simp add: sock subscribers_def)
  from a b c e f show ?thesis by blast
qed

text \<open>
  C4 with connections 0 and 1 on table 42, connection 2 on table 7, and connection 3 on
  table 42 but terminated by the heartbeat.
\<close>

theorem fan_out_witness:
  "0 \<in> set (subscribers (run fan_trace init) (Num 42))
   \<and> readyState (sockets (run fan_trace init) 0) = OPEN
   \<and> 1 \<in> set (subscribers (run fan_trace init) (Num 42))
   \<and> readyState (sockets (run fan_trace init) 1) = OPEN
   \<and> 2 \<in> set (clients (run fan_trace init))
   \<and> set (subscribedTables (sockets (run fan_trace init) 2)) = {Num 7}
   \<and> 3 \<in> set (subscribers (run fan_trace init) (Num 42))
   \<and> readyState (sockets (run fan_trace init) 3) = CLOSING
   \<and> sent (sockets (broadcastTableUpdate (Num 42) column_added (run fan_trace init)) 0)
        = [subscribed_msg (Num 42), envelope (Num 42) column_added]
   \<and> sent (sockets (broadcastTableUpdate (Num 42) column_added (run fan_trace init)) 1)
        = [subscribed_msg (Num 42), envelope (Num 42) column_added]
   \<and> sent (sockets (broadcastTableUpdate (Num 42) column_added (run fan_trace init)) 2)
        = [subscribed_msg (Num 7)]
   \<and> sent (sockets (broadcastTableUpdate (Num 42) column_added (run fan_trace init)) 3)
        = [subscribed_msg (Num 42)]
   \<and> 3 \<in> set (subscribers (broadcastTableUpdate (Num 42) column_added (run fan_trace init)) (Num 42))"
proof -
  have r: "tableSubscriptions (run fan_trace init) (Num 42) = Some [0, 1, 3]"
    by (simp add: fan_trace_def trace_simps)
  have a: "0 \<in> set (subscribers (run fan_trace init) (Num 42))"
    and b: "1 \<in> set (subscribers (run fan_trace init) (Num 42))"
    and d: "3 \<in> set (subscribers (run fan_trace init) (Num 42))"
    using r by (simp_all add: subscribers_def)
  have ra: "readyState (sockets (run fan_trace init) 0) = OPEN"
    by (simp add: fan_trace_def trace_simps)
  have rb: "readyState (sockets (run fan_trace init) 1) = OPEN"
    by (simp add: fan_trace_def trace_simps)
  have rd: "readyState (sockets (run fan_trace init) 3) = CLOSING"
    by (simp add: fan_trace_def trace_simps)
  have c: "2 \<in> set (clients (run fan_trace init))"
    by (simp add: fan_trace_def trace_simps)
  have tc: "set (subscribedTables (sockets (run fan_trace init) 2)) = {Num 7}"
    by (simp add: fan_trace_def trace_simps)
  have s0: "sent (sockets (run fan_trace init) 0) = [subscribed_msg (Num 42)]"
    by (simp add: fan_trace_def trace_simps)
  have s1: "sent (sockets (run fan_trace init) 1) = [subscribed_msg (Num 42)]"
    by (simp add: fan_trace_def trace_simps)
  have s2: "sent (sockets (run fan_trace init) 2) = [subscribed_msg (Num 7)]"
    by (simp add: fan_trace_def trace_simps)
  have s3: "sent (sockets (run fan_trace init) 3) = [subscribed_msg (Num 42)]"
    by (simp add: fan_trace_def trace_simps)
  have ne: "Num 7 \<noteq> Num 42" by simp
  have rdn: "readyState (sockets (run fan_trace init) 3) \<noteq> OPEN"
    using rd by simp
  note f = fan_out [OF refl a ra b rb c tc ne, of column_added]
  from f have f0: "sent (sockets (broadcastTableUpdate (Num 42) column_added (run fan_trace init)) 0)
          = sent (sockets (run fan_trace init) 0) @ [envelope (Num 42) column_added]"
    by (rule conjunct1)
  from f have f1: "sent (sockets (broadcastTableUpdate (Num 42) column_added (run fan_trace init)) 1)
          = sent (sockets (run fan_trace init) 1) @ [envelope (Num 42) column_added]"
    by (elim conjE)
  from f have f2: "sent (sockets (broadcastTableUpdate (Num 42) column_added (run fan_trace init)) 2)
          = sent (sockets (run fan_trace init) 2)"
    by (elim conjE)
  from f have "\<forall>D. D \<in> set (subscribers (run fan_trace init) (Num 42))
                     \<and> readyState (sockets (run fan_trace init) D) \<noteq> OPEN \<longrightarrow>
              sockets (broadcastTableUpdate (Num 42) column_added (run fan_trace init)) D
                = sockets (run fan_trace init) D
              \<and> D \<in> set (subscribers (broadcastTableUpdate (Num 42) column_added (run fan_trace init)) (Num 42))"
    by (elim conjE)
  with d rdn have f3: "sockets (broadcastTableUpdate (Num 42) column_added (run fan_trace init)) 3
                = sockets (run fan_trace init) 3
              \<and> 3 \<in> set (subscribers (broadcastTableUpdate (Num 42) column_added (run fan_trace init)) (Num 42))"
    by blast
  from a b c d ra rb rd tc s0 s1 s2 s3 f0 f1 f2 f3 show ?thesis by simp
qed

subsection \<open>C5: pruning\<close>

text \<open>
  C5. In a reachable state where connection \<open>c\<close> is the only subscriber of table \<open>T\<close>, an
  unsubscribe message of \<open>c\<close> for \<open>T\<close>, and likewise the close of \<open>c\<close>, leave no entry for \<open>T\<close>
  in \<open>tableSubscriptions\<close>.
\<close>

theorem last_subscriber_prunes:
  assumes "s = run evs init" and "set (subscribers s T) = {c}"
  shows "tableSubscriptions (step (Message c (unsubscribe_frame T)) s) T = None
       \<and> tableSubscriptions (step (Close c) s) T = None"
proof -
  have ok: "router_ok s"
    using assms(1) router_ok_reach by simp
  from assms(2) obtain subs where subs: "tableSubscriptions s T = Some subs" "set subs = {c}"
    by (cases "tableSubscriptions s T") (auto simp: subscribers_def)
  with ok have cl: "c \<in> set (clients s)" and tb: "T \<in> set (subscribedTables (sockets s c))"
    by (auto simp: router_ok_def)
  from subs have gone: "removeAll c subs = []"
    by (metis Diff_cancel set_empty set_removeAll)
  from cl subs gone have "tableSubscriptions (step (Message c (unsubscribe_frame T)) s) T = None"
    by (simp add: subs_unsubscribe)
  moreover from cl tb subs gone have "tableSubscriptions (step (Close c) s) T = None"
    by (simp add: subs_on_close)
  ultimately show ?thesis by simp
qed

text \<open>C5 where connection 0 is left alone on table 42 after connection 1 has closed.\<close>

theorem last_subscriber_prunes_witness:
  "set (subscribers (run lone_subscriber init) (Num 42)) = {0}
   \<and> tableSubscriptions (run lone_subscriber init) (Num 42) = Some [0]
   \<and> tableSubscriptions (step (Message 0 (unsubscribe_frame (Num 42))) (run lone_subscriber init)) (Num 42) = None
   \<and> tableSubscriptions (step (Close 0) (run lone_subscriber init)) (Num 42) = None"
proof -
  have a: "tableSubscriptions (run lone_subscriber init) (Num 42) = Some [0]"
    by (simp add: lone_subscriber_def eval_defs)
  then have b: "set (subscribers (run lone_subscriber init) (Num 42)) = {0}"
    by (simp add: subscribers_def)
  from last_subscriber_prunes [OF refl b] a b show ?thesis by simp
qed

subsection \<open>C6: the heartbeat reaps a silent connection\<close>

lemma quiet_step:
  assumes "quiet c e" and "c \<in> set (clients s)"
  shows "c \<in> set (clients (step e s)) \<and> isAlive (sockets (step e s) c) = isAlive (sockets s c)"
proof (cases e)
  case (Message c' m)
  then show ?thesis
    using assms on_message_cases [of c' m s]
    by (auto simp: sockets_subscribe sockets_unsubscribe split: if_splits)
next
  case (Close c')
  then show ?thesis
    using assms by (auto simp: quiet_def sockets_on_close)
next
  case (TableDeleted T)
  then show ?thesis
    using assms by (simp add: table_deleted_def Let_def)
qed (use assms in \<open>auto simp: quiet_def\<close>)

lemma quiet_run:
  "list_all (quiet c) evs \<Longrightarrow> c \<in> set (clients s) \<Longrightarrow>
   c \<in> set (clients (run evs s)) \<and> isAlive (sockets (run evs s) c) = isAlive (sockets s c)"
proof (induction evs arbitrary: s)
  case Nil
  then show ?case by (simp add: run_def)
next
  case (Cons e evs)
  from Cons.prems have q: "quiet c e" and qs: "list_all (quiet c) evs" by simp_all
  from quiet_step [OF q Cons.prems(2)]
  have m: "c \<in> set (clients (step e s))" and a: "isAlive (sockets (step e s) c) = isAlive (sockets s c)"
    by simp_all
  from Cons.IH [OF qs m] a show ?case by (simp add: run_def)
qed

text \<open>
  C6. A tracked connection \<open>c\<close> that is alive in a reachable state has \<open>isAlive\<close> false after
  one heartbeat pass; if no pong of \<open>c\<close>, no close of \<open>c\<close> and no other pass comes before the
  next pass, that pass terminates \<open>c\<close>; and whatever events follow, the close event of \<open>c\<close>
  leaves \<open>c\<close> untracked, in no table's subscriber set, and no empty subscriber set behind.
\<close>

theorem sweep_reaps_silent_connection:
  assumes "s = run evs init" and "c \<in> set (clients s)" and "isAlive (sockets s c)"
    and "list_all (quiet c) evs'"
  shows "isAlive (sockets (step Sweep s) c) = False
       \<and> readyState (sockets (step Sweep (run evs' (step Sweep s))) c) = CLOSING
       \<and> c \<notin> set (clients (step (Close c) (run evs'' (step Sweep (run evs' (step Sweep s))))))
       \<and> (\<forall>T. c \<notin> set (subscribers
                 (step (Close c) (run evs'' (step Sweep (run evs' (step Sweep s))))) T))
       \<and> (\<forall>T. tableSubscriptions
                 (step (Close c) (run evs'' (step Sweep (run evs' (step Sweep s))))) T \<noteq> Some [])"
proof -
  let ?s1 = "step Sweep s"
  let ?s2 = "run evs' ?s1"
  let ?s3 = "step Sweep ?s2"
  let ?s4 = "step (Close c) (run evs'' ?s3)"
  have ok: "router_ok s"
    using assms(1) router_ok_reach by simp
  then have d: "distinct (clients s)" by (simp add: router_ok_def)
  have a1: "isAlive (sockets ?s1 c) = False"
    using assms(2,3) by (simp add: sockets_sweep [OF d] sweep_one_def)
  have c1: "c \<in> set (clients ?s1)"
    using assms(2) by simp
  from quiet_run [OF assms(4) c1] a1
  have c2: "c \<in> set (clients ?s2)" and a2: "isAlive (sockets ?s2 c) = False"
    by simp_all
  have ok2: "router_ok ?s2"
    by (intro router_ok_run router_ok_step ok)
  then have d2: "distinct (clients ?s2)" by (simp add: router_ok_def)
  have "sockets (sweep ?s2) c = sweep_one (sockets ?s2 c)"
    using c2 sockets_sweep [OF d2, of c] by simp
  then have r3: "readyState (sockets ?s3 c) = CLOSING"
    using a2 by (simp add: sweep_one_def)
  have ok3: "router_ok (run evs'' ?s3)"
    by (intro router_ok_run router_ok_step ok2)
  have ok4: "router_ok ?s4"
    by (intro router_ok_step ok3)
  have c4: "c \<notin> set (clients ?s4)"
    by simp
  have n4: "\<forall>T. c \<notin> set (subscribers ?s4 T)"
    using router_ok_tracked [OF ok4] c4 by blast
  have e4: "\<forall>T. tableSubscriptions ?s4 T \<noteq> Some []"
    using router_ok_nonempty [OF ok4] by blast
  from a1 r3 c4 n4 e4 show ?thesis by blast
qed

text \<open>
  C6 for connection 0, subscribed to tables 42 and 7, while connection 1 answers its ping;
  a broadcast to table 7 runs between the second pass and the close event.
\<close>

theorem sweep_reaps_silent_connection_witness:
  "0 \<in> set (clients (run silent_trace init))
   \<and> isAlive (sockets (run silent_trace init) 0)
   \<and> list_all (quiet 0) between_sweeps
   \<and> readyState (sockets (step Sweep (run between_sweeps (step Sweep (run silent_trace init)))) 0) = CLOSING
   \<and> 0 \<notin> set (subscribers
              (step (Close 0) (run [Broadcast (Num 7) column_added]
                 (step Sweep (run between_sweeps (step Sweep (run silent_trace init)))))) (Num 7))
   \<and> tableSubscriptions
        (step (Close 0) (run [Broadcast (Num 7) column_added]
           (step Sweep (run between_sweeps (step Sweep (run silent_trace init)))))) (Num 42)
       \<noteq> Some []"
proof -
  have a: "0 \<in> set (clients (run silent_trace init))"
    by (simp add: silent_trace_def trace_simps)
  have b: "isAlive (sockets (run silent_trace init) 0)"
    by (simp add: silent_trace_def trace_simps)
  have q: "list_all (quiet 0) between_sweeps"
    by (simp add: between_sweeps_def quiet_def)
  from sweep_reaps_silent_connection [OF refl a b q, of "[Broadcast (Num 7) column_added]"] a b q
  show ?thesis by blast
qed

subsection \<open>C7: the snapshot fetch never raises\<close>

text \<open>The sheet id that the pattern finds in a document URL.\<close>

lemma sheet_id_match_url: "sheet_id_match sheet_url = Some sheet_id"
  by (simp add: sheet_url_def sheet_id_def word_char_def)

text \<open>
  Two sheets as the API returns them: a header row with a gap and rows of other lengths,
  and a sheet whose first row is empty, which gets generic headers.
\<close>

lemma process_values_example: "process_values small_sheet =
   Inr \<lparr>headers = [''Name'', [], ''Due''],
        rows = [[''Ann'', ''3'', []], [[], [], []], [''Bob'', [], ''May'', ''x'']]\<rparr>"
  by (simp add: process_values_def small_sheet_def header_row_def header_cell_def data_row_def
        cell_text_def upt_rec)

lemma generic_headers_example: "process_values [Arr [], Arr [CVal ''a'', CVal ''b'']] =
   Inr \<lparr>headers = [''Column 1'', ''Column 2''], rows = [[''a'', ''b'']]\<rparr>"
  by code_simp

lemma process_values_throws: "process_values vs = Inl e \<Longrightarrow> e = TypeError"
  by (auto simp: process_values_def header_row_def Let_def
           split: if_splits sum.splits row.splits bool.splits)

lemma has_status_ApiError:
  "has_status (ApiError code status) n \<longleftrightarrow> code = Some n \<or> status = Some n"
  by (simp add: has_status_def)

lemma has_status_other: "(\<forall>code status. e \<noteq> ApiError code status) \<Longrightarrow> \<not> has_status e n"
  by (cases e) (simp_all add: has_status_def)

text \<open>
  C7. For every environment and URL the fetch returns a snapshot (a record of a string list
  and a list of string lists) and never an exception. A URL without a sheet id and a
  missing API key give the one-row table headed \<open>Error\<close>; an error thrown by the API call
  gives the one-row table headed \<open>Data not found\<close> when its code or response status is 404,
  else the one headed \<open>Access denied\<close> when its code or response status is 403, else the
  one headed \<open>Error\<close>; an error thrown while the returned values are processed gives the
  one headed \<open>Error\<close>.
\<close>

theorem fetch_never_raises:
  "(\<exists>snapshot. fetchGoogleSheetData env sheetUrl = Inr snapshot)
   \<and> (sheet_id_match sheetUrl = None \<longrightarrow>
        fetchGoogleSheetData env sheetUrl =
          Inr \<lparr>headers = [''Error''],
             rows = [[''Failed to load data. Please check the Google Sheet URL and try again.'']]\<rparr>)
   \<and> (apiKey_of env = [] \<longrightarrow>
        fetchGoogleSheetData env sheetUrl =
          Inr \<lparr>headers = [''Error''],
             rows = [[''Failed to load data. Please check the Google Sheet URL and try again.'']]\<rparr>)
   \<and> (sheet_id_match sheetUrl = Some spreadsheetId \<and> apiKey_of env \<noteq> []
        \<and> values_get env spreadsheetId (apiKey_of env) = Inl (ApiError code status) \<longrightarrow>
        fetchGoogleSheetData env sheetUrl =
          Inr (if code = Some 404 \<or> status = Some 404
               then \<lparr>headers = [''Data not found''],
             rows = [[''Please check your Google Sheet URL and permissions'']]\<rparr>
               else if code = Some 403 \<or> status = Some 403
               then \<lparr>headers = [''Access denied''],
             rows = [[''Google Sheet requires public access or sharing with service account'']]\<rparr>
               else \<lparr>headers = [''Error''],
             rows = [[''Failed to load data. Please check the Google Sheet URL and try again.'']]\<rparr>))
   \<and> (sheet_id_match sheetUrl = Some spreadsheetId \<and> apiKey_of env \<noteq> []
        \<and> values_get env spreadsheetId (apiKey_of env) = Inl e
        \<and> (\<forall>code status. e \<noteq> ApiError code status) \<longrightarrow>
        fetchGoogleSheetData env sheetUrl =
          Inr \<lparr>headers = [''Error''],
             rows = [[''Failed to load data. Please check the Google Sheet URL and try again.'']]\<rparr>)
   \<and> (sheet_id_match sheetUrl = Some spreadsheetId \<and> apiKey_of env \<noteq> []
        \<and> values_get env spreadsheetId (apiKey_of env) = Inr v
        \<and> process_values (case v of None \<Rightarrow> [] | Some vs \<Rightarrow> vs) = Inl e \<longrightarrow>
        fetchGoogleSheetData env sheetUrl =
          Inr \<lparr>headers = [''Error''],
             rows = [[''Failed to load data. Please check the Google Sheet URL and try again.'']]\<rparr>)"
proof -
  have 1: "\<exists>snapshot. fetchGoogleSheetData env sheetUrl = Inr snapshot"
    by (simp add: fetchGoogleSheetData_def split: sum.splits)
  have 2: "sheet_id_match sheetUrl = None \<longrightarrow>
        fetchGoogleSheetData env sheetUrl =
          Inr \<lparr>headers = [''Error''],
             rows = [[''Failed to load data. Please check the Google Sheet URL and try again.'']]\<rparr>"
    by (simp add: fetchGoogleSheetData_def fetch_body_def error_snapshot_def)
  have 3: "apiKey_of env = [] \<longrightarrow>
        fetchGoogleSheetData env sheetUrl =
          Inr \<lparr>headers = [''Error''],
             rows = [[''Failed to load data. Please check the Google Sheet URL and try again.'']]\<rparr>"
    by (simp add: fetchGoogleSheetData_def fetch_body_def error_snapshot_def Let_def
             split: option.splits)
  have 4: "sheet_id_match sheetUrl = Some spreadsheetId \<and> apiKey_of env \<noteq> []
        \<and> values_get env spreadsheetId (apiKey_of env) = Inl (ApiError code status) \<longrightarrow>
        fetchGoogleSheetData env sheetUrl =
          Inr (if code = Some 404 \<or> status = Some 404
               then \<lparr>headers = [''Data not found''],
             rows = [[''Please check your Google Sheet URL and permissions'']]\<rparr>
               else if code = Some 403 \<or> status = Some 403
               then \<lparr>headers = [''Access denied''],
             rows = [[''Google Sheet requires public access or sharing with service account'']]\<rparr>
               else \<lparr>headers = [''Error''],
             rows = [[''Failed to load data. Please check the Google Sheet URL and try again.'']]\<rparr>)"
    by (simp add: fetchGoogleSheetData_def fetch_body_def google_catch_def has_status_ApiError
          error_snapshot_def not_found_snapshot_def access_denied_snapshot_def Let_def)
  have 5: "sheet_id_match sheetUrl = Some spreadsheetId \<and> apiKey_of env \<noteq> []
        \<and> values_get env spreadsheetId (apiKey_of env) = Inl e
        \<and> (\<forall>code status. e \<noteq> ApiError code status) \<longrightarrow>
        fetchGoogleSheetData env sheetUrl =
          Inr \<lparr>headers = [''Error''],
             rows = [[''Failed to load data. Please check the Google Sheet URL and try again.'']]\<rparr>"
    by (auto simp: fetchGoogleSheetData_def fetch_body_def google_catch_def has_status_other
          error_snapshot_def Let_def)
  have 6: "sheet_id_match sheetUrl = Some spreadsheetId \<and> apiKey_of env \<noteq> []
        \<and> values_get env spreadsheetId (apiKey_of env) = Inr v
        \<and> process_values (case v of None \<Rightarrow> [] | Some vs \<Rightarrow> vs) = Inl e \<longrightarrow>
        fetchGoogleSheetData env sheetUrl =
          Inr \<lparr>headers = [''Error''],
             rows = [[''Failed to load data. Please check the Google Sheet URL and try again.'']]\<rparr>"
  proof (intro impI, elim conjE)
    assume m: "sheet_id_match sheetUrl = Some spreadsheetId" and k: "apiKey_of env \<noteq> []"
      and g: "values_get env spreadsheetId (apiKey_of env) = Inr v"
      and p: "process_values (case v of None \<Rightarrow> [] | Some vs \<Rightarrow> vs) = Inl e"
    from process_values_throws [OF p] have e: "e = TypeError" .
    from m k g p e show "fetchGoogleSheetData env sheetUrl =
          Inr \<lparr>headers = [''Error''],
             rows = [[''Failed to load data. Please check the Google Sheet URL and try again.'']]\<rparr>"
      by (simp add: fetchGoogleSheetData_def fetch_body_def google_catch_def has_status_def
            error_snapshot_def Let_def)
  qed
  from 1 2 3 4 5 6 show ?thesis by blast
qed

text \<open>
  C7 on each failure path: no sheet id in the URL, no API key, a 404 and a 403 from the API,
  a network error, and a first row that is no array, on which \<open>map\<close> throws.
\<close>

theorem fetch_never_raises_witness:
  "sheet_id_match ''https://example.com/my-sheet'' = None
   \<and> fetchGoogleSheetData (env_of (Some ''key'') (Inr None)) ''https://example.com/my-sheet''
         = Inr \<lparr>headers = [''Error''],
             rows = [[''Failed to load data. Please check the Google Sheet URL and try again.'']]\<rparr>
   \<and> apiKey_of (env_of None (Inr None)) = []
   \<and> fetchGoogleSheetData (env_of None (Inr None)) sheet_url
         = Inr \<lparr>headers = [''Error''],
             rows = [[''Failed to load data. Please check the Google Sheet URL and try again.'']]\<rparr>
   \<and> fetchGoogleSheetData (env_of (Some ''key'') (Inl (ApiError (Some 404) None))) sheet_url
         = Inr \<lparr>headers = [''Data not found''],
             rows = [[''Please check your Google Sheet URL and permissions'']]\<rparr>
   \<and> fetchGoogleSheetData (env_of (Some ''key'') (Inl (ApiError None (Some 403)))) sheet_url
         = Inr \<lparr>headers = [''Access denied''],
             rows = [[''Google Sheet requires public access or sharing with service account'']]\<rparr>
   \<and> fetchGoogleSheetData (env_of (Some ''key'') (Inl (Error ''ECONNRESET''))) sheet_url
         = Inr \<lparr>headers = [''Error''],
             rows = [[''Failed to load data. Please check the Google Sheet URL and try again.'']]\<rparr>
   \<and> process_values [NotArr True] = Inl TypeError
   \<and> fetchGoogleSheetData (env_of (Some ''key'') (Inr (Some [NotArr True]))) sheet_url
         = Inr \<lparr>headers = [''Error''],
             rows = [[''Failed to load data. Please check the Google Sheet URL and try again.'']]\<rparr>"
proof -
  have m: "sheet_id_match sheet_url = Some sheet_id"
    by (rule sheet_id_match_url)
  have n: "sheet_id_match ''https://example.com/my-sheet'' = None"
    by (simp add: word_char_def)
  have k0: "apiKey_of (env_of None (Inr None)) = []"
    by (simp add: apiKey_of_def env_of_def)
  have k: "\<And>outcome. apiKey_of (env_of (Some ''key'') outcome) \<noteq> []"
    by (simp add: apiKey_of_def env_of_def)
  have g: "\<And>key outcome. values_get (env_of key outcome) sheet_id (apiKey_of (env_of key outcome)) = outcome"
    by (simp add: env_of_def)
  have p: "process_values [NotArr True] = Inl TypeError"
    by (simp add: process_values_def header_row_def)
  note f = fetch_never_raises
  have 1: "fetchGoogleSheetData (env_of (Some ''key'') (Inr None)) ''https://example.com/my-sheet''
             = Inr \<lparr>headers = [''Error''],
             rows = [[''Failed to load data. Please check the Google Sheet URL and try again.'']]\<rparr>"
    using f [of "env_of (Some ''key'') (Inr None)" "''https://example.com/my-sheet''"] n
    by blast
  have 2: "fetchGoogleSheetData (env_of None (Inr None)) sheet_url
             = Inr \<lparr>headers = [''Error''],
             rows = [[''Failed to load data. Please check the Google Sheet URL and try again.'']]\<rparr>"
    using f [of "env_of None (Inr None)" sheet_url] k0 by blast
  have 3: "fetchGoogleSheetData (env_of (Some ''key'') (Inl (ApiError (Some 404) None))) sheet_url
             = Inr \<lparr>headers = [''Data not found''],
             rows = [[''Please check your Google Sheet URL and permissions'']]\<rparr>"
    using f [of "env_of (Some ''key'') (Inl (ApiError (Some 404) None))" sheet_url
                sheet_id "Some 404" None] m k g
    by simp
  have 4: "fetchGoogleSheetData (env_of (Some ''key'') (Inl (ApiError None (Some 403)))) sheet_url
             = Inr \<lparr>headers = [''Access denied''],
             rows = [[''Google Sheet requires public access or sharing with service account'']]\<rparr>"
    using f [of "env_of (Some ''key'') (Inl (ApiError None (Some 403)))" sheet_url
                sheet_id None "Some 403"] m k g
    by simp
  have 5: "fetchGoogleSheetData (env_of (Some ''key'') (Inl (Error ''ECONNRESET''))) sheet_url
             = Inr \<lparr>headers = [''Error''],
             rows = [[''Failed to load data. Please check the Google Sheet URL and try again.'']]\<rparr>"
    using f [of "env_of (Some ''key'') (Inl (Error ''ECONNRESET''))" sheet_url
                sheet_id _ _ "Error ''ECONNRESET''"] m k g
    by simp
  have 6: "fetchGoogleSheetData (env_of (Some ''key'') (Inr (Some [NotArr True]))) sheet_url
             = Inr \<lparr>headers = [''Error''],
             rows = [[''Failed to load data. Please check the Google Sheet URL and try again.'']]\<rparr>"
    using f [of "env_of (Some ''key'') (Inr (Some [NotArr True]))" sheet_url
                sheet_id _ _ TypeError "Some [NotArr True]"] m k g p
    by simp
  from n k0 p 1 2 3 4 5 6 show ?thesis by simp
qed

subsection \<open>C8: subscribing always succeeds and is confirmed to the requester\<close>

text \<open>
  C8. A message with \<open>type\<close> \<open>subscribe\<close> and a numeric \<open>tableId\<close> is handled without an
  exception in every server state (the handler consults no table storage): the requesting
  connection is sent exactly one message, the object with \<open>type\<close> \<open>subscribed\<close>, the
  \<open>tableId\<close> of the request and the \<open>message\<close> text of the confirmation; no other socket
  changes; and the subscription is recorded on both sides.
\<close>

theorem subscribe_confirms:
  assumes "get_prop data ''type'' = Inr (JStr ''subscribe'')"
    and "get_prop data ''tableId'' = Inr (JNum T)"
  shows "case on_message c (Text data) s of
           Inl e \<Rightarrow> False
         | Inr s' \<Rightarrow>
             sent (sockets s' c)
               = sent (sockets s c)
                   @ [JObj [(''type'', JStr ''subscribed''), (''tableId'', JNum T),
                          (''message'', JStr ''Successfully subscribed to real-time updates'')]]
             \<and> (\<forall>c'. c' \<noteq> c \<longrightarrow> sockets s' c' = sockets s c')
             \<and> T \<in> set (subscribedTables (sockets s' c))
             \<and> c \<in> set (subscribers s' T)"
proof -
  from assms have "on_message c (Text data) s = Inr (subscribe c T s)"
    by (simp add: on_message_def message_body_def is_request_def tableId_of_def)
  then show ?thesis
    by (simp add: sockets_subscribe in_subscribers subs_subscribe subscribed_msg_def)
qed

text \<open>
  C8 for the tracked connection 0 of a server on which no table exists: it subscribes to
  table 42, and connection 1 is sent nothing.
\<close>

theorem subscribe_confirms_witness:
  "get_prop subscribe_42 ''type'' = Inr (JStr ''subscribe'')
   \<and> get_prop subscribe_42 ''tableId'' = Inr (JNum (Num 42))
   \<and> 0 \<in> set (clients one_client)
   \<and> (case on_message 0 (Text subscribe_42) one_client of
         Inl e \<Rightarrow> False
       | Inr s' \<Rightarrow> sent (sockets s' 0)
                    = [JObj [(''type'', JStr ''subscribed''), (''tableId'', JNum (Num 42)),
                          (''message'', JStr ''Successfully subscribed to real-time updates'')]]
                  \<and> sent (sockets s' 1) = []
                  \<and> 0 \<in> set (subscribers s' (Num 42)))"
proof -
  have a: "get_prop subscribe_42 ''type'' = Inr (JStr ''subscribe'')"
    by (simp add: subscribe_42_def)
  have b: "get_prop subscribe_42 ''tableId'' = Inr (JNum (Num 42))"
    by (simp add: subscribe_42_def)
  have c: "0 \<in> set (clients one_client)"
    by (simp add: one_client_def trace_simps)
  have e: "sent (sockets one_client 0) = []" "sent (sockets one_client 1) = []"
    by (simp_all add: one_client_def trace_simps)
  show ?thesis
    using subscribe_confirms [OF a b, of 0 one_client] a b c e
    by (auto split: sum.splits)
qed

subsection \<open>C9: subscribing twice\<close>

text \<open>
  C9. For a tracked, open connection in a reachable state, a second subscribe message for
  the same table leaves the registry and the router as the first one left them, and a
  broadcast to that table then appends the message to the connection's log exactly once.
\<close>

theorem subscribe_idempotent:
  assumes "s = run evs init" and "c \<in> set (clients s)" and "readyState (sockets s c) = OPEN"
  shows "registry_router (step (Message c (subscribe_frame T)) (step (Message c (subscribe_frame T)) s))
           = registry_router (step (Message c (subscribe_frame T)) s)
       \<and> sent (sockets (broadcastTableUpdate T d
                 (step (Message c (subscribe_frame T)) (step (Message c (subscribe_frame T)) s))) c)
           = sent (sockets (step (Message c (subscribe_frame T)) (step (Message c (subscribe_frame T)) s)) c)
               @ [envelope T d]"
proof -
  let ?s1 = "subscribe c T s"
  let ?s2 = "subscribe c T ?s1"
  have st1: "step (Message c (subscribe_frame T)) s = ?s1"
    using assms(2) by simp
  have st2: "step (Message c (subscribe_frame T)) ?s1 = ?s2"
    using assms(2) by simp
  have same: "registry_router ?s2 = registry_router ?s1"
    by (auto simp: registry_router_def subs_subscribe sockets_subscribe subscribers_def fun_eq_iff)
  have ok: "router_ok ?s2"
    using assms(1,2) router_ok_reach [of evs] by (simp add: router_ok_subscribe)
  have mem: "c \<in> set (subscribers ?s2 T)"
    by (simp add: subscribers_subscribe)
  have op: "readyState (sockets ?s2 c) = OPEN"
    using assms(3) by (simp add: sockets_subscribe)
  have "sent (sockets (broadcastTableUpdate T d ?s2) c) = sent (sockets ?s2 c) @ [envelope T d]"
    using mem op by (simp add: sockets_broadcast [OF router_ok_distinct [OF ok]])
  with same st1 st2 show ?thesis by simp
qed

text \<open>C9 for connection 0 and table 42, which connection 1 has joined before.\<close>

theorem subscribe_idempotent_witness:
  "0 \<in> set (clients (run two_clients init))
   \<and> readyState (sockets (run two_clients init) 0) = OPEN
   \<and> sent (sockets (broadcastTableUpdate (Num 42) [(''type'', JStr ''tableUpdated'')]
            (step (Message 0 (subscribe_frame (Num 42)))
               (step (Message 0 (subscribe_frame (Num 42))) (run two_clients init)))) 0)
       = [subscribed_msg (Num 42), subscribed_msg (Num 42),
          envelope (Num 42) [(''type'', JStr ''tableUpdated'')]]"
proof -
  have a: "0 \<in> set (clients (run two_clients init))"
    by (simp add: two_clients_def eval_defs)
  have b: "readyState (sockets (run two_clients init) 0) = OPEN"
    by (simp add: two_clients_def eval_defs)
  have c: "sent (sockets (step (Message 0 (subscribe_frame (Num 42)))
               (step (Message 0 (subscribe_frame (Num 42))) (run two_clients init))) 0)
           = [subscribed_msg (Num 42), subscribed_msg (Num 42)]"
    by (simp add: two_clients_def eval_defs)
  from subscribe_idempotent [OF refl a b, of "Num 42" "[(''type'', JStr ''tableUpdated'')]"] a b c
  show ?thesis by simp
qed

subsection \<open>C10: saving a column value is an upsert\<close>

lemma first_row_take [simp]: "first_row (take (Suc 0) xs) = first_row xs"
  by (cases xs) (simp_all add: first_row_def)




















end
